theory Spec2Isabelle
  imports Main "HOL-Library.Word" "HOL-Library.Char_ord" "HOL-Library.List_Lexorder"
begin

unbundle bit_operations_syntax

section \<open>The chat synchronisation engine of clawdbot-panel.js\<close>

text \<open>
  The panel keeps its chat state in module-level variables (\<^verbatim>\<open>chatItems\<close>,
  \<^verbatim>\<open>chatLastSeenIds\<close>, \<^verbatim>\<open>chatPollTimer\<close>, ...) and mutates them from
  \<^verbatim>\<open>async\<close> functions. The embedding collects the variables in one record and turns
  every synchronous stretch of an \<^verbatim>\<open>async\<close> function (the code between two
  \<^verbatim>\<open>await\<close>s) into a function from state to state; the value an \<^verbatim>\<open>await\<close>
  yields is an argument of the stretch that follows it.

  Modelling conventions:
  \<^item> a JavaScript string is a \<open>string\<close>; the empty string also stands for the falsy
    \<^verbatim>\<open>null\<close>/\<^verbatim>\<open>undefined\<close> of an optional field (the source only tests truthiness);
  \<^item> the arrays of the remote service hold message objects (a \<^verbatim>\<open>null\<close> entry, on which
    \<^verbatim>\<open>renderChat\<close> would throw, is outside the model);
  \<^item> strings are compared as JavaScript compares them, lexicographically by character code
    (the order of \<open>Char_ord\<close> and \<open>List_Lexorder\<close>); a \<open>char\<close> has a code below 256, so
    the model covers the strings whose UTF-16 code units are below 256;
  \<^item> a rejected promise is \<open>Inl msg\<close>, a resolved one \<open>Inr payload\<close>;
  \<^item> \<^verbatim>\<open>Date.now()\<close> is an argument \<open>now\<close>;
  \<^item> the browser's table of pending timeouts is the field \<open>timers\<close> (handle and delay),
    \<^verbatim>\<open>setTimeout\<close> and \<^verbatim>\<open>clearTimeout\<close> act on it;
  \<^item> DOM effects (\<^verbatim>\<open>renderChat\<close>, \<^verbatim>\<open>updateChatPollDebug\<close>, the debug console) do not
    touch the chat variables and are left out.
\<close>

subsection \<open>Data\<close>

record item =
  item_id :: string
  message_id :: string
  messageId :: string
  ts :: string
  role :: string
  session_key :: string
  text_f :: string

text \<open>The payload of \<^verbatim>\<open>chat_history_delta\<close>: \<open>items\<close> is \<open>None\<close> when the field is
  missing or not an array.\<close>

record delta =
  items :: "item list option"
  has_older :: bool

type_synonym 'a rpc = "string + 'a"

text \<open>The arguments of a \<^verbatim>\<open>chat_history_delta\<close> call.\<close>

record delta_query =
  q_session_key :: string
  q_after_ts :: "string option"
  q_before_id :: "string option"
  q_limit :: nat

record state =
  chatItems :: "item list"
  chatHasOlder :: bool
  chatLoadingOlder :: bool
  chatSessionKey :: string
  chatPollingActive :: bool
  chatPollTimer :: "nat option"
  chatLastSeenIds :: "string set"
  chatPollBoostUntil :: int
  chatLastPollTs :: "int option"
  chatLastPollAppended :: nat
  chatLastPollError :: "string option"
  timers :: "(nat \<times> int) list"
  nextTimerId :: nat

definition CHAT_POLL_INTERVAL_MS :: int where "CHAT_POLL_INTERVAL_MS = 5000"
definition CHAT_POLL_FAST_MS :: int where "CHAT_POLL_FAST_MS = 2000"
definition CHAT_POLL_INITIAL_MS :: int where "CHAT_POLL_INITIAL_MS = 1000"
definition CHAT_POLL_BOOST_WINDOW_MS :: int where "CHAT_POLL_BOOST_WINDOW_MS = 30000"
definition CHAT_DELTA_LIMIT :: nat where "CHAT_DELTA_LIMIT = 200"
definition CHAT_HISTORY_PAGE_LIMIT :: nat where "CHAT_HISTORY_PAGE_LIMIT = 50"

text \<open>The module's initial values.\<close>

definition init_state :: state where
  "init_state = \<lparr> chatItems = [], chatHasOlder = False, chatLoadingOlder = False,
     chatSessionKey = [], chatPollingActive = False, chatPollTimer = None,
     chatLastSeenIds = {}, chatPollBoostUntil = 0, chatLastPollTs = None,
     chatLastPollAppended = 0, chatLastPollError = None, timers = [], nextTimerId = 0 \<rparr>"

subsection \<open>Dedupe keys\<close>

text \<open>\<^verbatim>\<open>h << 5\<close>: the operand is converted to a signed 32-bit integer, shifted, and read
  back signed. \<^verbatim>\<open>h >>> 0\<close> reads it unsigned. The running value \<open>h\<close> itself is a
  JavaScript number, exact for every string shorter than some millions of characters.\<close>

definition shl5 :: "int \<Rightarrow> int" where
  "shl5 h = sint (push_bit 5 (word_of_int h :: 32 word))"

definition to_uint32 :: "int \<Rightarrow> nat" where
  "to_uint32 h = unat (word_of_int h :: 32 word)"

fun simpleHash_loop :: "int \<Rightarrow> string \<Rightarrow> int" where
  "simpleHash_loop h [] = h"
| "simpleHash_loop h (c # cs) = simpleHash_loop ((shl5 h + h) + of_char c) cs"

definition hexDigit :: "nat \<Rightarrow> char" where
  "hexDigit d = ''0123456789abcdef'' ! d"

function toString16 :: "nat \<Rightarrow> string" where
  "toString16 n = (if n < 16 then [hexDigit n] else toString16 (n div 16) @ [hexDigit (n mod 16)])"
  by pat_completeness auto
termination
  by (relation "measure id") auto

declare toString16.simps [simp del]

definition simpleHash :: "string \<Rightarrow> string" where
  "simpleHash str = toString16 (to_uint32 (simpleHash_loop 5381 str))"

definition chatItemKey :: "item \<Rightarrow> string" where
  "chatItemKey it =
     (let idv = (if item_id it \<noteq> [] then item_id it
                 else if message_id it \<noteq> [] then message_id it else messageId it)
      in if idv \<noteq> [] then idv
         else ''h_'' @ simpleHash (role it @ ''|'' @ ts it @ ''|'' @ text_f it))"

subsection \<open>The seen-key set and the forward cursor\<close>

definition syncChatSeenIds :: "state \<Rightarrow> state" where
  "syncChatSeenIds st =
     (if chatLastSeenIds st \<noteq> {} then st
      else st\<lparr>chatLastSeenIds := set (filter (\<lambda>k. k \<noteq> []) (map chatItemKey (chatItems st)))\<rparr>)"

fun maxChatTs_loop :: "string \<Rightarrow> item list \<Rightarrow> string" where
  "maxChatTs_loop mx [] = mx"
| "maxChatTs_loop mx (it # rest) =
     (if ts it \<noteq> [] \<and> ts it > mx then maxChatTs_loop (ts it) rest else maxChatTs_loop mx rest)"

definition maxChatTs :: "state \<Rightarrow> string" where
  "maxChatTs st = maxChatTs_loop [] (chatItems st)"

subsection \<open>Initial load\<close>

definition delta_items :: "delta rpc \<Rightarrow> item list" where
  "delta_items r = (case r of Inl _ \<Rightarrow> [] | Inr d \<Rightarrow> (case items d of None \<Rightarrow> [] | Some xs \<Rightarrow> xs))"

text \<open>\<^verbatim>\<open>loadChatLatest\<close> awaits one \<^verbatim>\<open>chat_history_delta\<close> call (session key and page
  limit only); this is what it does with the outcome. A rejection is swallowed.\<close>

definition loadChatLatest_query :: "state \<Rightarrow> delta_query" where
  "loadChatLatest_query st = \<lparr> q_session_key = chatSessionKey st, q_after_ts = None,
     q_before_id = None, q_limit = CHAT_HISTORY_PAGE_LIMIT \<rparr>"

definition loadChatLatest :: "delta rpc \<Rightarrow> state \<Rightarrow> state" where
  "loadChatLatest r st =
     (case r of
        Inl _ \<Rightarrow> st
      | Inr d \<Rightarrow> syncChatSeenIds (st\<lparr>chatItems := delta_items r, chatHasOlder := has_older d\<rparr>))"

text \<open>\<^verbatim>\<open>loadChatFromConfig\<close>: the history embedded in the page's configuration
  (\<^verbatim>\<open>chat_history\<close>, \<^verbatim>\<open>chat_history_has_older\<close>, \<^verbatim>\<open>session_key\<close>), of which it copies the
  fields \<^verbatim>\<open>id\<close>, \<^verbatim>\<open>ts\<close>, \<^verbatim>\<open>role\<close>, \<^verbatim>\<open>session_key\<close>, \<^verbatim>\<open>text\<close>; with the debug flag a
  non-empty history always shows the paging control.\<close>

definition loadChatFromConfig ::
  "item list option \<Rightarrow> bool \<Rightarrow> string \<Rightarrow> bool \<Rightarrow> state \<Rightarrow> state" where
  "loadChatFromConfig chat_history chat_history_has_older cfg_session_key DEBUG_UI st =
     (let its = map (\<lambda>it. it\<lparr>message_id := [], messageId := []\<rparr>)
                  (case chat_history of None \<Rightarrow> [] | Some xs \<Rightarrow> xs);
          st1 = st\<lparr>chatItems := its, chatHasOlder := chat_history_has_older,
                   chatSessionKey := cfg_session_key\<rparr>;
          st2 = (if DEBUG_UI \<and> length its \<ge> 1 then st1\<lparr>chatHasOlder := True\<rparr> else st1)
      in syncChatSeenIds st2)"

subsection \<open>Backward pagination\<close>

fun beforeId :: "item list \<Rightarrow> string option" where
  "beforeId [] = None"
| "beforeId (it # rest) = (if item_id it \<noteq> [] then Some (item_id it) else beforeId rest)"

text \<open>\<^verbatim>\<open>loadOlderChat\<close> up to its \<^verbatim>\<open>await\<close>: the new state and the request issued, if
  any.\<close>

definition loadOlderChat_start :: "state \<Rightarrow> state \<times> delta_query option" where
  "loadOlderChat_start st =
     (if chatLoadingOlder st then (st, None)
      else (case beforeId (chatItems st) of
              None \<Rightarrow> (st\<lparr>chatHasOlder := False\<rparr>, None)
            | Some b \<Rightarrow> (st\<lparr>chatLoadingOlder := True\<rparr>,
                Some \<lparr> q_session_key = chatSessionKey st, q_after_ts = None,
                       q_before_id = Some b, q_limit = CHAT_HISTORY_PAGE_LIMIT \<rparr>)))"

definition older_prepend :: "item list \<Rightarrow> item list \<Rightarrow> item list" where
  "older_prepend window page =
     (let existing = set (filter (\<lambda>i. i \<noteq> []) (map item_id window))
      in filter (\<lambda>it. \<not> (item_id it = [] \<or> item_id it \<in> existing)) page)"

text \<open>\<^verbatim>\<open>if (prepend.length) chatItems = prepend.concat(chatItems)\<close>\<close>


definition prepend_older :: "item list \<Rightarrow> item list \<Rightarrow> item list" where
  "prepend_older window page =
     (let prepend = older_prepend window page
      in if prepend \<noteq> [] then prepend @ window else window)"

text \<open>\<^verbatim>\<open>loadOlderChat\<close> after its \<^verbatim>\<open>await\<close>, \<^verbatim>\<open>catch\<close> and \<^verbatim>\<open>finally\<close> included.\<close>

definition loadOlderChat_finish :: "delta rpc \<Rightarrow> state \<Rightarrow> state" where
  "loadOlderChat_finish r st =
     (case r of
        Inl _ \<Rightarrow> st\<lparr>chatLoadingOlder := False\<rparr>
      | Inr d \<Rightarrow>
          (let st1 = st\<lparr>chatItems := prepend_older (chatItems st) (delta_items r)\<rparr>;
               st2 = syncChatSeenIds (st1\<lparr>chatHasOlder := has_older d\<rparr>)
           in st2\<lparr>chatLoadingOlder := False\<rparr>))"

subsection \<open>Timers and the poll switch\<close>

text \<open>\<^verbatim>\<open>setTimeout\<close> hands out a fresh positive handle and enters the timeout in the
  table; \<^verbatim>\<open>clearTimeout\<close> removes the handle's entry, if there is one.\<close>

definition setTimeout :: "int \<Rightarrow> state \<Rightarrow> nat \<times> state" where
  "setTimeout d st =
     (let h = Suc (nextTimerId st)
      in (h, st\<lparr>timers := timers st @ [(h, d)], nextTimerId := h\<rparr>))"

definition clearTimeout :: "nat \<Rightarrow> state \<Rightarrow> state" where
  "clearTimeout h st = st\<lparr>timers := filter (\<lambda>p. fst p \<noteq> h) (timers st)\<rparr>"

definition stopChatPolling :: "state \<Rightarrow> state" where
  "stopChatPolling st =
     (let st1 = st\<lparr>chatPollingActive := False\<rparr>
      in case chatPollTimer st1 of
           Some h \<Rightarrow> (clearTimeout h st1)\<lparr>chatPollTimer := None\<rparr>
         | None \<Rightarrow> st1)"

definition scheduleChatPoll :: "int \<Rightarrow> state \<Rightarrow> state" where
  "scheduleChatPoll delayMs st =
     (if \<not> chatPollingActive st then st
      else let st1 = (case chatPollTimer st of Some h \<Rightarrow> clearTimeout h st | None \<Rightarrow> st);
               (h, st2) = setTimeout (max 500 delayMs) st1
           in st2\<lparr>chatPollTimer := Some h\<rparr>)"

definition startChatPolling :: "state \<Rightarrow> state" where
  "startChatPolling st =
     (if chatPollingActive st then st
      else scheduleChatPoll CHAT_POLL_INITIAL_MS (st\<lparr>chatPollingActive := True\<rparr>))"

definition boostChatPolling :: "int \<Rightarrow> state \<Rightarrow> state" where
  "boostChatPolling now st = st\<lparr>chatPollBoostUntil := now + CHAT_POLL_BOOST_WINDOW_MS\<rparr>"

subsection \<open>The poll cycle\<close>

text \<open>The merge loop of \<^verbatim>\<open>pollSessionsHistory\<close>: \<open>existing\<close> is the set of keys, the second
  argument is \<^verbatim>\<open>chatItems\<close>, the third the batch \<^verbatim>\<open>newer\<close>.\<close>

fun merge_loop :: "string set \<Rightarrow> item list \<Rightarrow> item list \<Rightarrow> item list" where
  "merge_loop existing window [] = window"
| "merge_loop existing window (it # rest) =
     (let k = chatItemKey it
      in if k = [] \<or> k \<in> existing then merge_loop existing window rest
         else merge_loop (insert k existing) (window @ [it]) rest)"

text \<open>\<^verbatim>\<open>if (newer.length) { ...; if (chatItems.length > 200) chatItems = chatItems.slice(-200); }\<close>\<close>

definition merge_newer :: "item list \<Rightarrow> item list \<Rightarrow> item list" where
  "merge_newer window newer =
     (if newer \<noteq> [] then
        (let w = merge_loop (set (map chatItemKey window)) window newer
         in if length w > 200 then drop (length w - 200) w else w)
      else window)"

text \<open>The \<^verbatim>\<open>+N\<close> loop: the seen set as extended so far, and the count.\<close>

fun count_loop :: "string set \<Rightarrow> nat \<Rightarrow> item list \<Rightarrow> string set \<times> nat" where
  "count_loop nextSeen appendedCount [] = (nextSeen, appendedCount)"
| "count_loop nextSeen appendedCount (it # rest) =
     (let key = chatItemKey it
      in if key = [] then count_loop nextSeen appendedCount rest
         else if key \<in> nextSeen then count_loop nextSeen appendedCount rest
         else count_loop (insert key nextSeen)
                (if role it = ''agent'' then appendedCount + 1 else appendedCount) rest)"

text \<open>What a suspended \<^verbatim>\<open>pollSessionsHistory\<close> call keeps in its local variables.\<close>

record poll_ctx =
  currentSession :: string
  seenBefore :: "string set"

text \<open>The \<^verbatim>\<open>catch\<close> block, and the code after the \<^verbatim>\<open>try\<close>.\<close>

definition poll_catch :: "int \<Rightarrow> string \<Rightarrow> state \<Rightarrow> state" where
  "poll_catch now e st =
     st\<lparr>chatLastPollTs := Some now, chatLastPollAppended := 0,
        chatLastPollError := Some (take 120 e)\<rparr>"

definition poll_tail :: "int \<Rightarrow> state \<Rightarrow> state" where
  "poll_tail now st =
     (let st1 = (if chatLastPollAppended st \<noteq> 0 then boostChatPolling now st else st);
          delay = (if now < chatPollBoostUntil st1 then CHAT_POLL_FAST_MS
                   else CHAT_POLL_INTERVAL_MS)
      in scheduleChatPoll delay st1)"

text \<open>From the call to the first \<^verbatim>\<open>await\<close> (the \<^verbatim>\<open>chat_poll\<close> refresh, issued for the
  captured session): \<open>None\<close> when the call returns without a request.\<close>

definition pollSessionsHistory_enter :: "int \<Rightarrow> state \<Rightarrow> state \<times> poll_ctx option" where
  "pollSessionsHistory_enter now st =
     (if \<not> chatPollingActive st then (st, None)
      else if chatSessionKey st = [] then
        (scheduleChatPoll CHAT_POLL_INTERVAL_MS
           (st\<lparr>chatLastPollTs := Some now, chatLastPollAppended := 0,
               chatLastPollError := None\<rparr>), None)
      else (st, Some \<lparr> currentSession = chatSessionKey st, seenBefore = chatLastSeenIds st \<rparr>))"

text \<open>From the settled refresh to the second \<^verbatim>\<open>await\<close>: the delta query issued.\<close>

definition pollSessionsHistory_refreshed ::
  "int \<Rightarrow> poll_ctx \<Rightarrow> unit rpc \<Rightarrow> state \<Rightarrow> state \<times> delta_query option" where
  "pollSessionsHistory_refreshed now ctx r st =
     (case r of
        Inl e \<Rightarrow> (poll_tail now (poll_catch now e st), None)
      | Inr _ \<Rightarrow>
          (let st1 = st\<lparr>chatLastPollTs := Some now, chatLastPollError := None\<rparr>;
               afterTs = maxChatTs st1
           in (st1, Some \<lparr> q_session_key = currentSession ctx,
                           q_after_ts = (if afterTs \<noteq> [] then Some afterTs else None),
                           q_before_id = None, q_limit = CHAT_DELTA_LIMIT \<rparr>)))"

text \<open>From the settled delta query to the end of the call.\<close>

definition pollSessionsHistory_merged :: "int \<Rightarrow> poll_ctx \<Rightarrow> delta rpc \<Rightarrow> state \<Rightarrow> state" where
  "pollSessionsHistory_merged now ctx r st =
     (case r of
        Inl e \<Rightarrow> poll_tail now (poll_catch now e st)
      | Inr d \<Rightarrow>
          (let newer = delta_items r;
               st1 = st\<lparr>chatItems := merge_newer (chatItems st) newer\<rparr>;
               (nextSeen, appendedCount) = count_loop (seenBefore ctx) 0 newer;
               st2 = st1\<lparr>chatLastSeenIds := nextSeen, chatLastPollAppended := appendedCount\<rparr>
           in poll_tail now st2))"

subsection \<open>Session switch\<close>

text \<open>The \<^verbatim>\<open>onchange\<close> handler of the session selector: the assignment before the first
  \<^verbatim>\<open>await\<close>, \<^verbatim>\<open>loadChatLatest\<close>, and the rescheduling after the last \<^verbatim>\<open>await\<close>.\<close>

definition onchange_select :: "string \<Rightarrow> state \<Rightarrow> state" where
  "onchange_select v st = st\<lparr>chatSessionKey := v\<rparr>"

definition onchange_resume :: "state \<Rightarrow> state" where
  "onchange_resume st =
     (if chatPollingActive st then scheduleChatPoll CHAT_POLL_INITIAL_MS st else st)"

definition sessionSel_onchange :: "string \<Rightarrow> delta rpc \<Rightarrow> state \<Rightarrow> state" where
  "sessionSel_onchange v r st = onchange_resume (loadChatLatest r (onchange_select v st))"

subsection \<open>Sequences of window operations\<close>

text \<open>What the application of a response does to the window alone: a poll merge and a
  pagination prepend, each with what its query fixed when it was sent, before the
  \<^verbatim>\<open>await\<close>: the boundary \<^verbatim>\<open>after_ts\<close> (\<open>None\<close> for \<^verbatim>\<open>null\<close>), and the anchor, the item
  whose id went out as \<^verbatim>\<open>before_id\<close>.\<close>

datatype window_op = Poll "string option" "item list" | Older item "item list"

fun apply_op :: "window_op \<Rightarrow> item list \<Rightarrow> item list" where
  "apply_op (Poll after newer) window = merge_newer window newer"
| "apply_op (Older anchor page) window = prepend_older window page"

definition run_ops :: "window_op list \<Rightarrow> item list \<Rightarrow> item list" where
  "run_ops ops window = fold apply_op ops window"

text \<open>What the panel sends from a window: \<^verbatim>\<open>after_ts: afterTs || null\<close> with
  \<^verbatim>\<open>afterTs = maxChatTs()\<close>, and as \<^verbatim>\<open>before_id\<close> the id of the first item that has one.\<close>

definition sent_after_ts :: "item list \<Rightarrow> string option" where
  "sent_after_ts window =
     (let afterTs = maxChatTs_loop [] window in if afterTs \<noteq> [] then Some afterTs else None)"

definition anchor_item :: "item list \<Rightarrow> item option" where
  "anchor_item window = find (\<lambda>it. item_id it \<noteq> []) window"

text \<open>The remote service's ordering contract, as the specification words it, for the
  response to a query: a delta batch is ascending and at or above the query's boundary; a
  page is ascending and strictly older than the query's anchor.\<close>

definition ascending :: "item list \<Rightarrow> bool" where
  "ascending xs = sorted (map ts xs)"

fun server_contract :: "window_op \<Rightarrow> bool" where
  "server_contract (Poll after newer) =
     (ascending newer \<and>
      (case after of None \<Rightarrow> True | Some t \<Rightarrow> list_all (\<lambda>it. t \<le> ts it) newer))"
| "server_contract (Older anchor page) =
     (ascending page \<and> list_all (\<lambda>it. ts it < ts anchor) page)"

text \<open>The window a response is applied to has not run ahead of the query: its maximum
  timestamp does not exceed the boundary that was sent, and its first item is not older
  than the anchor that was sent.\<close>

fun in_time :: "item list \<Rightarrow> window_op \<Rightarrow> bool" where
  "in_time window (Poll after newer) =
     (maxChatTs_loop [] window \<le> (case after of None \<Rightarrow> [] | Some t \<Rightarrow> t))"
| "in_time window (Older anchor page) =
     (case window of [] \<Rightarrow> True | first # _ \<Rightarrow> ts anchor \<le> ts first)"

fun contracts_hold :: "item list \<Rightarrow> window_op list \<Rightarrow> bool" where
  "contracts_hold window [] = True"
| "contracts_hold window (op # ops) =
     (server_contract op \<and> in_time window op \<and> contracts_hold (apply_op op window) ops)"

subsection \<open>The panel as a transition system\<close>

text \<open>Every event runs one synchronous stretch of the source. A settled promise may arrive
  with any outcome and, for the poll, any captured context: the system allows more
  interleavings than the browser produces. \<open>olderInFlight\<close> counts the pagination requests
  that have been issued and have not settled.\<close>

datatype event =
    StartPolling
  | StopPolling
  | TimerFires nat int
  | RefreshSettled int poll_ctx "unit rpc"
  | DeltaSettled int poll_ctx "delta rpc"
  | SessionSelected string
  | LatestSettled "delta rpc"
  | Rescheduled
  | Boosted int
  | LoadOlderClicked
  | OlderSettled "delta rpc"
  | ConfigLoaded "item list option" bool string bool

record system =
  vars :: state
  olderInFlight :: nat

text \<open>A pending timeout fires: the browser drops it from its table and calls
  \<^verbatim>\<open>pollSessionsHistory\<close>.\<close>

definition timer_fires :: "nat \<Rightarrow> int \<Rightarrow> state \<Rightarrow> state" where
  "timer_fires h now st =
     (if h \<in> fst ` set (timers st) then fst (pollSessionsHistory_enter now (clearTimeout h st))
      else st)"

fun step :: "event \<Rightarrow> system \<Rightarrow> system" where
  "step StartPolling sys = sys\<lparr>vars := startChatPolling (vars sys)\<rparr>"
| "step StopPolling sys = sys\<lparr>vars := stopChatPolling (vars sys)\<rparr>"
| "step (TimerFires h now) sys = sys\<lparr>vars := timer_fires h now (vars sys)\<rparr>"
| "step (RefreshSettled now ctx r) sys =
     sys\<lparr>vars := fst (pollSessionsHistory_refreshed now ctx r (vars sys))\<rparr>"
| "step (DeltaSettled now ctx r) sys =
     sys\<lparr>vars := pollSessionsHistory_merged now ctx r (vars sys)\<rparr>"
| "step (SessionSelected v) sys = sys\<lparr>vars := onchange_select v (vars sys)\<rparr>"
| "step (LatestSettled r) sys = sys\<lparr>vars := loadChatLatest r (vars sys)\<rparr>"
| "step Rescheduled sys = sys\<lparr>vars := onchange_resume (vars sys)\<rparr>"
| "step (Boosted now) sys = sys\<lparr>vars := boostChatPolling now (vars sys)\<rparr>"
| "step LoadOlderClicked sys =
     (case loadOlderChat_start (vars sys) of
        (st, None) \<Rightarrow> sys\<lparr>vars := st\<rparr>
      | (st, Some q) \<Rightarrow> sys\<lparr>vars := st, olderInFlight := Suc (olderInFlight sys)\<rparr>)"
| "step (OlderSettled r) sys =
     (case olderInFlight sys of
        0 \<Rightarrow> sys
      | Suc n \<Rightarrow> sys\<lparr>vars := loadOlderChat_finish r (vars sys), olderInFlight := n\<rparr>)"
| "step (ConfigLoaded h ho k dbg) sys = sys\<lparr>vars := loadChatFromConfig h ho k dbg (vars sys)\<rparr>"

definition init_system :: system where
  "init_system = \<lparr> vars = init_state, olderInFlight = 0 \<rparr>"

definition run :: "event list \<Rightarrow> system \<Rightarrow> system" where
  "run es sys = fold step es sys"

subsection \<open>Invariants of the transition system\<close>

text \<open>The pagination requests in flight are counted by the flag \<^verbatim>\<open>chatLoadingOlder\<close>.\<close>

definition inflight_inv :: "system \<Rightarrow> bool" where
  "inflight_inv sys = (olderInFlight sys = (if chatLoadingOlder (vars sys) then 1 else 0))"

text \<open>The table of pending timeouts is empty, or holds the one timeout whose handle is in
  \<^verbatim>\<open>chatPollTimer\<close>, with a delay of at least 500 ms.\<close>

definition timer_inv :: "state \<Rightarrow> bool" where
  "timer_inv st =
     (case timers st of
        [] \<Rightarrow> True
      | [p] \<Rightarrow> chatPollTimer st = Some (fst p) \<and> 500 \<le> snd p
      | _ \<Rightarrow> False)"

subsection \<open>Sample messages\<close>

definition msg :: "string \<Rightarrow> string \<Rightarrow> string \<Rightarrow> string \<Rightarrow> item" where
  "msg i t r s = \<lparr> item_id = i, message_id = [], messageId = [], ts = t, role = r,
     session_key = s, text_f = ''hello'' \<rparr>"

text \<open>The \<open>n\<close>-th message of a long session, with the id \<open>m\<close> followed by \<open>n\<close> in hex.\<close>

definition nth_msg :: "nat \<Rightarrow> item" where
  "nth_msg n = msg (''m'' @ toString16 n) (''t'' @ toString16 (4096 + n)) ''agent'' ''main''"

text \<open>A panel that has loaded session \<open>A\<close> (one agent message) and started polling.\<close>

definition session_A :: state where
  "session_A = startChatPolling (loadChatLatest
      (Inr \<lparr> items = Some [msg ''a1'' ''t10'' ''agent'' ''A''], has_older = False \<rparr>)
      (onchange_select ''A'' init_state))"

text \<open>The local variables of a poll call that started while \<open>A\<close> was the session, and a
  delta response to that call's query.\<close>

definition poll_of_A :: poll_ctx where
  "poll_of_A = \<lparr> currentSession = ''A'', seenBefore = {''a1''} \<rparr>"

definition stale_delta :: "delta rpc" where
  "stale_delta = Inr \<lparr> items = Some [msg ''a1'' ''t10'' ''agent'' ''A'',
      msg ''a2'' ''t30'' ''agent'' ''A''], has_older = False \<rparr>"

text \<open>Session \<open>A\<close> is loaded and polled; the timer fires and the poll's refresh settles; the
  user switches to \<open>B\<close>; then the poll's delta query for \<open>A\<close> settles.\<close>

definition stale_trace :: "event list" where
  "stale_trace = [SessionSelected ''A'',
     LatestSettled (Inr \<lparr> items = Some [msg ''a1'' ''t10'' ''agent'' ''A''], has_older = False \<rparr>),
     StartPolling, TimerFires 1 1000, RefreshSettled 1100 poll_of_A (Inr ()),
     SessionSelected ''B'',
     LatestSettled (Inr \<lparr> items = Some [msg ''b1'' ''t20'' ''agent'' ''B''], has_older = False \<rparr>),
     Rescheduled, DeltaSettled 1200 poll_of_A stale_delta]"

text \<open>A delta response that repeats the message \<open>a1\<close> under a later timestamp.\<close>

definition echo_delta :: "delta rpc" where
  "echo_delta = Inr \<lparr> items = Some [msg ''a1'' ''t20'' ''agent'' ''A''], has_older = False \<rparr>"

text \<open>A window at capacity, and a delta batch that repeats its oldest message and brings a
  new one.\<close>

definition full_window :: "item list" where
  "full_window = msg ''first'' ''t0fff'' ''user'' ''main'' # map nth_msg [1..<200]"

definition overlap_batch :: "item list" where
  "overlap_batch = [msg ''first'' ''t0fff'' ''user'' ''main'', msg ''fresh'' ''t2000'' ''agent'' ''main'']"

text \<open>A poll that brings \<open>a2\<close>, then a page with the older \<open>a0\<close>.\<close>

definition sample_ops :: "window_op list" where
  "sample_ops =
     [Poll (Some ''t10'') [msg ''a1'' ''t10'' ''agent'' ''A'', msg ''a2'' ''t30'' ''agent'' ''A''],
      Older (msg ''a1'' ''t10'' ''agent'' ''A'') [msg ''a0'' ''t05'' ''user'' ''A'']]"

text \<open>A window whose oldest message has no id.\<close>

definition mixed_window :: "item list" where
  "mixed_window = [msg [] ''t10'' ''user'' ''A'', msg ''a1'' ''t20'' ''agent'' ''A'']"






text \<open>A panel whose only message carries no id, with older history reported.\<close>

definition no_id_state :: state where
  "no_id_state = loadChatLatest
      (Inr \<lparr> items = Some [msg [] ''t10'' ''user'' ''A''], has_older = True \<rparr>)
      (onchange_select ''A'' init_state)"

text \<open>Two clicks on \<open>Load older\<close> before the first request settles.\<close>

definition two_clicks :: "event list" where
  "two_clicks = [SessionSelected ''A'',
     LatestSettled (Inr \<lparr> items = Some [msg ''a1'' ''t10'' ''agent'' ''A''], has_older = True \<rparr>),
     LoadOlderClicked, LoadOlderClicked]"

text \<open>Polling is started twice, the timer fires, and the user switches session while the
  poll is in flight.\<close>

definition busy_trace :: "event list" where
  "busy_trace = [SessionSelected ''A'', StartPolling, StartPolling, TimerFires 1 1000,
     RefreshSettled 1100 \<lparr> currentSession = ''A'', seenBefore = {} \<rparr> (Inr ()),
     SessionSelected ''B'', Rescheduled,
     DeltaSettled 1200 \<lparr> currentSession = ''A'', seenBefore = {} \<rparr>
       (Inr \<lparr> items = Some [msg ''a1'' ''t10'' ''agent'' ''A''], has_older = False \<rparr>)]"

section \<open>Basic facts\<close>

text \<open>An object always has a non-empty key: its id, or \<open>h_\<close> and a hash.\<close>


lemma chatItemKey_nonempty: "chatItemKey it \<noteq> []"
  by (simp add: chatItemKey_def Let_def)

text \<open>The definitions that evaluate a run of the panel on given inputs.\<close>

lemmas eval_defs = run_def init_system_def init_state_def startChatPolling_def stopChatPolling_def
  scheduleChatPoll_def setTimeout_def clearTimeout_def timer_fires_def
  pollSessionsHistory_enter_def pollSessionsHistory_refreshed_def pollSessionsHistory_merged_def
  poll_tail_def poll_catch_def boostChatPolling_def onchange_select_def onchange_resume_def
  loadChatLatest_def syncChatSeenIds_def loadOlderChat_start_def loadOlderChat_finish_def
  prepend_older_def older_prepend_def delta_items_def merge_newer_def maxChatTs_def
  chatItemKey_def msg_def Let_def
  CHAT_POLL_INITIAL_MS_def CHAT_POLL_FAST_MS_def CHAT_POLL_INTERVAL_MS_def
  CHAT_POLL_BOOST_WINDOW_MS_def CHAT_HISTORY_PAGE_LIMIT_def CHAT_DELTA_LIMIT_def

lemma clearTimeout_fields [simp]:
  "chatItems (clearTimeout h st) = chatItems st"
  "chatHasOlder (clearTimeout h st) = chatHasOlder st"
  "chatLoadingOlder (clearTimeout h st) = chatLoadingOlder st"
  "chatSessionKey (clearTimeout h st) = chatSessionKey st"
  "chatPollingActive (clearTimeout h st) = chatPollingActive st"
  "chatPollTimer (clearTimeout h st) = chatPollTimer st"
  "chatLastSeenIds (clearTimeout h st) = chatLastSeenIds st"
  "chatPollBoostUntil (clearTimeout h st) = chatPollBoostUntil st"
  "chatLastPollAppended (clearTimeout h st) = chatLastPollAppended st"
  "timers (clearTimeout h st) = filter (\<lambda>p. fst p \<noteq> h) (timers st)"
  by (simp_all add: clearTimeout_def)

lemma scheduleChatPoll_fields [simp]:
  "chatItems (scheduleChatPoll d st) = chatItems st"
  "chatHasOlder (scheduleChatPoll d st) = chatHasOlder st"
  "chatLoadingOlder (scheduleChatPoll d st) = chatLoadingOlder st"
  "chatSessionKey (scheduleChatPoll d st) = chatSessionKey st"
  "chatPollingActive (scheduleChatPoll d st) = chatPollingActive st"
  "chatLastSeenIds (scheduleChatPoll d st) = chatLastSeenIds st"
  "chatPollBoostUntil (scheduleChatPoll d st) = chatPollBoostUntil st"
  "chatLastPollAppended (scheduleChatPoll d st) = chatLastPollAppended st"
  by (simp_all add: scheduleChatPoll_def setTimeout_def Let_def split: option.splits)

lemma poll_tail_fields [simp]:
  "chatItems (poll_tail now st) = chatItems st"
  "chatHasOlder (poll_tail now st) = chatHasOlder st"
  "chatLoadingOlder (poll_tail now st) = chatLoadingOlder st"
  "chatSessionKey (poll_tail now st) = chatSessionKey st"
  "chatPollingActive (poll_tail now st) = chatPollingActive st"
  "chatLastSeenIds (poll_tail now st) = chatLastSeenIds st"
  "chatLastPollAppended (poll_tail now st) = chatLastPollAppended st"
  by (simp_all add: poll_tail_def boostChatPolling_def Let_def)

lemma poll_catch_fields [simp]:
  "chatItems (poll_catch now e st) = chatItems st"
  "chatHasOlder (poll_catch now e st) = chatHasOlder st"
  "chatLoadingOlder (poll_catch now e st) = chatLoadingOlder st"
  "chatSessionKey (poll_catch now e st) = chatSessionKey st"
  "chatPollingActive (poll_catch now e st) = chatPollingActive st"
  "chatLastSeenIds (poll_catch now e st) = chatLastSeenIds st"
  "chatLastPollAppended (poll_catch now e st) = 0"
  "chatPollTimer (poll_catch now e st) = chatPollTimer st"
  "timers (poll_catch now e st) = timers st"
  by (simp_all add: poll_catch_def)

lemma syncChatSeenIds_fields [simp]:
  "chatItems (syncChatSeenIds st) = chatItems st"
  "chatHasOlder (syncChatSeenIds st) = chatHasOlder st"
  "chatLoadingOlder (syncChatSeenIds st) = chatLoadingOlder st"
  "chatSessionKey (syncChatSeenIds st) = chatSessionKey st"
  "chatPollingActive (syncChatSeenIds st) = chatPollingActive st"
  "chatPollTimer (syncChatSeenIds st) = chatPollTimer st"
  "timers (syncChatSeenIds st) = timers st"
  by (simp_all add: syncChatSeenIds_def)

lemma merged_chatItems:
  "chatItems (pollSessionsHistory_merged now ctx r st) = merge_newer (chatItems st) (delta_items r)"
  by (cases r) (simp_all add: pollSessionsHistory_merged_def delta_items_def merge_newer_def
      Let_def split: prod.splits)

lemma finish_chatItems:
  "chatItems (loadOlderChat_finish r st) = prepend_older (chatItems st) (delta_items r)"
  by (cases r) (simp_all add: loadOlderChat_finish_def delta_items_def prepend_older_def
      older_prepend_def Let_def)

lemma merge_loop_append: "merge_loop ex w b = w @ merge_loop ex [] b"
proof (induction b arbitrary: ex w)
  case Nil
  show ?case by simp
next
  case (Cons it rest)
  show ?case
  proof (cases "chatItemKey it = [] \<or> chatItemKey it \<in> ex")
    case True
    then show ?thesis using Cons.IH [of ex w] by (simp add: Let_def)
  next
    case False
    then show ?thesis
      using Cons.IH [of "insert (chatItemKey it) ex" "w @ [it]"]
        Cons.IH [of "insert (chatItemKey it) ex" "[it]"]
      by (simp add: Let_def)
  qed
qed

lemma length_merge_newer_nonempty: "newer \<noteq> [] \<Longrightarrow> length (merge_newer w newer) \<le> 200"
  by (simp add: merge_newer_def Let_def)

lemma length_merge_newer_max: "length (merge_newer w newer) \<le> max 200 (length w)"
  by (auto simp add: merge_newer_def Let_def)

lemma length_older_prepend: "length (older_prepend w page) \<le> length page"
  by (simp add: older_prepend_def)

lemma length_prepend_older: "length (prepend_older w page) \<le> length w + length page"
  using length_older_prepend [of w page] by (simp add: prepend_older_def Let_def)

lemma older_prepend_fresh:
  "item_id p \<noteq> [] \<Longrightarrow> item_id p \<notin> item_id ` set w \<Longrightarrow> older_prepend w [p] = [p]"
  by (auto simp add: older_prepend_def)

section \<open>Boundedness of the window\<close>

text \<open>
  C1, amended. The window is cut to its last 200 items only inside a poll cycle, and only
  when the cycle's batch is not empty: after such a merge the window holds at most 200
  items, and after any poll cycle at most the larger of 200 and what it held before.
  Backward pagination and the initial load do not trim: after a pagination the window
  holds at most its previous items plus the page, after an initial load that resolved it
  is exactly the list the service returned, and after the load from the page's
  configuration it has as many items as the configured history.
\<close>

theorem window_length_bounds:
  "(delta_items r \<noteq> [] \<longrightarrow> length (chatItems (pollSessionsHistory_merged now ctx r st)) \<le> 200)
   \<and> length (chatItems (pollSessionsHistory_merged now ctx r st)) \<le> max 200 (length (chatItems st))
   \<and> length (chatItems (loadOlderChat_finish r st)) \<le> length (chatItems st) + length (delta_items r)
   \<and> chatItems (loadChatLatest (Inr d) st) = delta_items (Inr d)
   \<and> length (chatItems (loadChatFromConfig (Some xs) ho k dbg st)) = length xs"
proof -
  have "chatItems (loadChatLatest (Inr d) st) = delta_items (Inr d)"
    by (simp add: loadChatLatest_def)
  moreover have "length (chatItems (loadChatFromConfig (Some xs) ho k dbg st)) = length xs"
    by (simp add: loadChatFromConfig_def Let_def)
  ultimately show ?thesis
    using length_merge_newer_nonempty [of "delta_items r" "chatItems st"]
      length_merge_newer_max [of "chatItems st" "delta_items r"]
      length_prepend_older [of "chatItems st" "delta_items r"]
    by (simp only: merged_chatItems finish_chatItems) simp
qed

text \<open>A first poll that returns one message leaves one item, which is within the bound.\<close>

theorem window_length_bounds_witness:
  "delta_items (Inr \<lparr> items = Some [nth_msg 0], has_older = False \<rparr>) \<noteq> []
   \<and> length (chatItems (pollSessionsHistory_merged 0 \<lparr>currentSession = ''main'', seenBefore = {}\<rparr>
      (Inr \<lparr> items = Some [nth_msg 0], has_older = False \<rparr>) init_state)) \<le> 200"
  using window_length_bounds [of "Inr \<lparr> items = Some [nth_msg 0], has_older = False \<rparr>" 0
      "\<lparr>currentSession = ''main'', seenBefore = {}\<rparr>" init_state]
  by (simp add: delta_items_def)

text \<open>C1 as stated fails for pagination: a window of 200 messages and a page with one older
  message give 201 items.\<close>

theorem window_length_counterexample:
  "\<not> length (chatItems (loadOlderChat_finish
        (Inr \<lparr> items = Some [msg ''older'' ''t0fff'' ''user'' ''main''], has_older = False \<rparr>)
        (init_state\<lparr>chatItems := map nth_msg [0..<200]\<rparr>))) \<le> 200"
proof -
  let ?p = "msg ''older'' ''t0fff'' ''user'' ''main''"
  have "item_id ?p \<notin> item_id ` set (map nth_msg [0..<200])"
    by (clarsimp simp add: msg_def nth_msg_def)
  then have "older_prepend (map nth_msg [0..<200]) [?p] = [?p]"
    by (intro older_prepend_fresh) (simp_all add: msg_def)
  then show ?thesis
    by (simp add: finish_chatItems delta_items_def prepend_older_def)
qed

section \<open>Session switch\<close>

lemma loadChatLatest_fields [simp]:
  "chatSessionKey (loadChatLatest r st) = chatSessionKey st"
  "chatPollingActive (loadChatLatest r st) = chatPollingActive st"
  "chatPollTimer (loadChatLatest r st) = chatPollTimer st"
  "chatLoadingOlder (loadChatLatest r st) = chatLoadingOlder st"
  "timers (loadChatLatest r st) = timers st"
  "nextTimerId (loadChatLatest r st) = nextTimerId st"
  by (cases r; simp add: loadChatLatest_def syncChatSeenIds_def)+

lemma loadChatFromConfig_fields [simp]:
  "chatPollingActive (loadChatFromConfig h ho k dbg st) = chatPollingActive st"
  "chatPollTimer (loadChatFromConfig h ho k dbg st) = chatPollTimer st"
  "chatLoadingOlder (loadChatFromConfig h ho k dbg st) = chatLoadingOlder st"
  "timers (loadChatFromConfig h ho k dbg st) = timers st"
  by (simp_all add: loadChatFromConfig_def Let_def)

lemma scheduleChatPoll_timers:
  "chatPollingActive st \<Longrightarrow>
     timers (scheduleChatPoll d st) =
       filter (\<lambda>p. Some (fst p) \<noteq> chatPollTimer st) (timers st) @ [(Suc (nextTimerId st), max 500 d)]
     \<and> chatPollTimer (scheduleChatPoll d st) = Some (Suc (nextTimerId st))"
  by (cases "chatPollTimer st")
    (simp_all add: scheduleChatPoll_def setTimeout_def clearTimeout_def Let_def)

lemma scheduleChatPoll_inactive: "\<not> chatPollingActive st \<Longrightarrow> scheduleChatPoll d st = st"
  by (simp add: scheduleChatPoll_def)

lemma session_A_eq:
  "session_A = \<lparr> chatItems = [msg ''a1'' ''t10'' ''agent'' ''A''], chatHasOlder = False,
     chatLoadingOlder = False, chatSessionKey = ''A'', chatPollingActive = True,
     chatPollTimer = Some 1, chatLastSeenIds = {''a1''}, chatPollBoostUntil = 0,
     chatLastPollTs = None, chatLastPollAppended = 0, chatLastPollError = None,
     timers = [(1, 1000)], nextTimerId = 1 \<rparr>"
  by (simp add: session_A_def startChatPolling_def scheduleChatPoll_def setTimeout_def
      loadChatLatest_def syncChatSeenIds_def onchange_select_def init_state_def delta_items_def
      chatItemKey_def msg_def CHAT_POLL_INITIAL_MS_def Let_def)

text \<open>
  C2, amended. Selecting another session replaces the session key at once. The window is
  not cleared: it is replaced by the fetched latest page when that fetch resolves and
  stays as it was when the fetch fails. The seen-key set is not cleared either: it is
  left as it is unless it was empty (then, after a resolved fetch, it receives the keys of
  the fetched page). If polling is active, the pending poll timer is cancelled and one new
  timer is set at the initial interval of 1000 ms, which is shorter than the fast (2000 ms) and
  the steady-state (5000 ms) intervals; if polling is not active no timer is set.
\<close>

theorem session_switch:
  "chatSessionKey (sessionSel_onchange v r st) = v
   \<and> chatItems (sessionSel_onchange v r st) = (case r of Inl e \<Rightarrow> chatItems st | Inr d \<Rightarrow> delta_items r)
   \<and> chatLastSeenIds (sessionSel_onchange v r st) =
       (if chatLastSeenIds st \<noteq> {} \<or> isl r then chatLastSeenIds st
        else chatItemKey ` set (delta_items r))
   \<and> (chatPollingActive st \<longrightarrow>
        timers (sessionSel_onchange v r st) =
          filter (\<lambda>p. Some (fst p) \<noteq> chatPollTimer st) (timers st)
            @ [(Suc (nextTimerId st), CHAT_POLL_INITIAL_MS)]
        \<and> chatPollTimer (sessionSel_onchange v r st) = Some (Suc (nextTimerId st)))
   \<and> (\<not> chatPollingActive st \<longrightarrow> timers (sessionSel_onchange v r st) = timers st)
   \<and> CHAT_POLL_INITIAL_MS < CHAT_POLL_FAST_MS \<and> CHAT_POLL_FAST_MS < CHAT_POLL_INTERVAL_MS"
proof -
  let ?st1 = "loadChatLatest r (onchange_select v st)"
  have key: "chatSessionKey (sessionSel_onchange v r st) = v"
    by (simp add: sessionSel_onchange_def onchange_resume_def onchange_select_def)
  have its: "chatItems (sessionSel_onchange v r st) = (case r of Inl e \<Rightarrow> chatItems st | Inr d \<Rightarrow> delta_items r)"
    by (cases r) (simp_all add: sessionSel_onchange_def onchange_resume_def onchange_select_def
        loadChatLatest_def)
  have seen: "chatLastSeenIds (sessionSel_onchange v r st) =
       (if chatLastSeenIds st \<noteq> {} \<or> isl r then chatLastSeenIds st
        else chatItemKey ` set (delta_items r))"
    by (cases r) (auto simp add: sessionSel_onchange_def onchange_resume_def onchange_select_def
        loadChatLatest_def syncChatSeenIds_def chatItemKey_nonempty)
  have act: "chatPollingActive ?st1 = chatPollingActive st"
    and tm: "timers ?st1 = timers st" and pt: "chatPollTimer ?st1 = chatPollTimer st"
    and nx: "nextTimerId ?st1 = nextTimerId st"
    by (simp_all add: onchange_select_def)
  have on: "chatPollingActive st \<longrightarrow>
        timers (sessionSel_onchange v r st) =
          filter (\<lambda>p. Some (fst p) \<noteq> chatPollTimer st) (timers st)
            @ [(Suc (nextTimerId st), CHAT_POLL_INITIAL_MS)]
        \<and> chatPollTimer (sessionSel_onchange v r st) = Some (Suc (nextTimerId st))"
    using scheduleChatPoll_timers [of ?st1 CHAT_POLL_INITIAL_MS] act tm pt nx
    by (simp add: sessionSel_onchange_def onchange_resume_def CHAT_POLL_INITIAL_MS_def)
  have off: "\<not> chatPollingActive st \<longrightarrow> timers (sessionSel_onchange v r st) = timers st"
    using act tm by (simp add: sessionSel_onchange_def onchange_resume_def)
  have cst: "CHAT_POLL_INITIAL_MS < CHAT_POLL_FAST_MS \<and> CHAT_POLL_FAST_MS < CHAT_POLL_INTERVAL_MS"
    by (simp add: CHAT_POLL_INITIAL_MS_def CHAT_POLL_FAST_MS_def CHAT_POLL_INTERVAL_MS_def)
  from key its seen on off cst show ?thesis by blast
qed

text \<open>Switching from session \<open>A\<close> to \<open>B\<close> while polling: the timer of 1000 ms set by the
  start is replaced by a new one of 1000 ms.\<close>

theorem session_switch_witness:
  "chatPollingActive session_A \<and>
   timers (sessionSel_onchange ''B''
     (Inr \<lparr> items = Some [msg ''b1'' ''t20'' ''agent'' ''B''], has_older = False \<rparr>) session_A)
     = [(2, 1000)]"
  using session_switch [of "''B''"
      "Inr \<lparr> items = Some [msg ''b1'' ''t20'' ''agent'' ''B''], has_older = False \<rparr>" session_A]
  by (simp add: session_A_eq CHAT_POLL_INITIAL_MS_def)

text \<open>C2 as stated fails: after the switch to \<open>B\<close> the seen-key set still holds the key of
  session \<open>A\<close>'s message, and when the fetch fails the window still shows session \<open>A\<close>.\<close>

theorem session_switch_counterexample:
  "''a1'' \<in> chatLastSeenIds (sessionSel_onchange ''B''
       (Inr \<lparr> items = Some [msg ''b1'' ''t20'' ''agent'' ''B''], has_older = False \<rparr>) session_A)
   \<and> chatItems (sessionSel_onchange ''B'' (Inl ''timeout'') session_A)
       = [msg ''a1'' ''t10'' ''agent'' ''A'']"
  by (simp add: session_A_eq sessionSel_onchange_def onchange_resume_def onchange_select_def
      loadChatLatest_def syncChatSeenIds_def scheduleChatPoll_def setTimeout_def clearTimeout_def
      delta_items_def Let_def)

section \<open>Responses that arrive after a session switch\<close>

text \<open>
  C3, amended. Neither the poll nor the pagination compares the session key again before
  it applies a response. A poll call captures the session key when it starts and uses it
  as the \<^verbatim>\<open>session_key\<close> of its requests, nothing more: when the delta response
  arrives it is merged into the window of whatever session is current, and what the merge
  and the pagination do with a response does not depend on the captured or on the
  current session key.
\<close>

theorem stale_response_applied:
  "pollSessionsHistory_merged now (ctx\<lparr>currentSession := c\<rparr>) r (st\<lparr>chatSessionKey := k\<rparr>)
     = (pollSessionsHistory_merged now ctx r st)\<lparr>chatSessionKey := k\<rparr>
   \<and> loadOlderChat_finish r (st\<lparr>chatSessionKey := k\<rparr>)
     = (loadOlderChat_finish r st)\<lparr>chatSessionKey := k\<rparr>
   \<and> map_option q_session_key (snd (pollSessionsHistory_refreshed now ctx (Inr ()) st))
     = Some (currentSession ctx)"
proof -
  have tail: "poll_tail now (s\<lparr>chatSessionKey := k\<rparr>) = (poll_tail now s)\<lparr>chatSessionKey := k\<rparr>"
    for s
    by (simp add: poll_tail_def boostChatPolling_def scheduleChatPoll_def setTimeout_def
        clearTimeout_def Let_def split: option.splits)
  have "pollSessionsHistory_merged now (ctx\<lparr>currentSession := c\<rparr>) r (st\<lparr>chatSessionKey := k\<rparr>)
      = (pollSessionsHistory_merged now ctx r st)\<lparr>chatSessionKey := k\<rparr>"
  proof (cases r)
    case (Inl e)
    have "poll_catch now e (st\<lparr>chatSessionKey := k\<rparr>) = (poll_catch now e st)\<lparr>chatSessionKey := k\<rparr>"
      by (simp add: poll_catch_def)
    with Inl show ?thesis by (simp add: pollSessionsHistory_merged_def tail)
  next
    case (Inr d)
    obtain ns n where cl: "count_loop (seenBefore ctx) 0 (delta_items r) = (ns, n)"
      by (cases "count_loop (seenBefore ctx) 0 (delta_items r)")
    have up: "st\<lparr>chatSessionKey := k, chatItems := w, chatLastSeenIds := ns, chatLastPollAppended := n\<rparr>
        = (st\<lparr>chatItems := w, chatLastSeenIds := ns, chatLastPollAppended := n\<rparr>)\<lparr>chatSessionKey := k\<rparr>"
      for w
      by simp
    have "pollSessionsHistory_merged now (ctx\<lparr>currentSession := c\<rparr>) r (st\<lparr>chatSessionKey := k\<rparr>)
        = poll_tail now ((st\<lparr>chatItems := merge_newer (chatItems st) (delta_items r),
            chatLastSeenIds := ns, chatLastPollAppended := n\<rparr>)\<lparr>chatSessionKey := k\<rparr>)"
      using Inr cl by (simp add: pollSessionsHistory_merged_def Let_def up)
    also have "\<dots> = (poll_tail now (st\<lparr>chatItems := merge_newer (chatItems st) (delta_items r),
            chatLastSeenIds := ns, chatLastPollAppended := n\<rparr>))\<lparr>chatSessionKey := k\<rparr>"
      by (rule tail)
    also have "\<dots> = (pollSessionsHistory_merged now ctx r st)\<lparr>chatSessionKey := k\<rparr>"
      using Inr cl by (simp add: pollSessionsHistory_merged_def Let_def)
    finally show ?thesis .
  qed
  moreover have "loadOlderChat_finish r (st\<lparr>chatSessionKey := k\<rparr>)
      = (loadOlderChat_finish r st)\<lparr>chatSessionKey := k\<rparr>"
    by (cases r) (simp_all add: loadOlderChat_finish_def syncChatSeenIds_def Let_def)
  moreover have "map_option q_session_key (snd (pollSessionsHistory_refreshed now ctx (Inr ()) st))
      = Some (currentSession ctx)"
    by (simp add: pollSessionsHistory_refreshed_def Let_def)
  ultimately show ?thesis by blast
qed

text \<open>C3 as stated fails. The timer fires in session \<open>A\<close> and the poll captures \<open>A\<close>, which
  goes out as the session key of its delta query; the user switches to \<open>B\<close>; the
  response to the query for \<open>A\<close> is then appended to the window of \<open>B\<close>.\<close>

theorem stale_response_counterexample:
  "pollSessionsHistory_enter 1000 (clearTimeout 1 session_A)
     = (clearTimeout 1 session_A, Some poll_of_A)
   \<and> map_option q_session_key
        (snd (pollSessionsHistory_refreshed 1100 poll_of_A (Inr ()) (clearTimeout 1 session_A)))
       = Some ''A''
   \<and> chatSessionKey (vars (run stale_trace init_system)) = ''B''
   \<and> chatItems (vars (run stale_trace init_system))
       = [msg ''b1'' ''t20'' ''agent'' ''B'', msg ''a1'' ''t10'' ''agent'' ''A'',
          msg ''a2'' ''t30'' ''agent'' ''A'']"
proof -
  have "pollSessionsHistory_enter 1000 (clearTimeout 1 session_A)
      = (clearTimeout 1 session_A, Some poll_of_A)"
    by (simp add: pollSessionsHistory_enter_def clearTimeout_def session_A_eq poll_of_A_def)
  moreover have "map_option q_session_key
        (snd (pollSessionsHistory_refreshed 1100 poll_of_A (Inr ()) (clearTimeout 1 session_A)))
       = Some ''A''"
    by (simp add: pollSessionsHistory_refreshed_def poll_of_A_def Let_def)
  moreover have "chatSessionKey (vars (run stale_trace init_system)) = ''B''
   \<and> chatItems (vars (run stale_trace init_system))
       = [msg ''b1'' ''t20'' ''agent'' ''B'', msg ''a1'' ''t10'' ''agent'' ''A'',
          msg ''a2'' ''t30'' ''agent'' ''A'']"
    by (simp add: stale_trace_def stale_delta_def poll_of_A_def eval_defs)
  ultimately show ?thesis by blast
qed

section \<open>A batch of known keys\<close>

lemma merge_loop_all_present:
  "\<forall>it\<in>set b. chatItemKey it \<in> ex \<Longrightarrow> merge_loop ex w b = w"
  by (induction b) (simp_all add: Let_def)

lemma merge_newer_all_present:
  assumes "\<forall>it\<in>set b. chatItemKey it \<in> chatItemKey ` set w"
  shows "merge_newer w b = (if b \<noteq> [] \<and> 200 < length w then drop (length w - 200) w else w)"
  using merge_loop_all_present [OF assms, of w] by (simp add: merge_newer_def Let_def)

lemma merged_maxChatTs:
  "chatItems (pollSessionsHistory_merged now ctx r st) = chatItems st \<Longrightarrow>
     maxChatTs (pollSessionsHistory_merged now ctx r st) = maxChatTs st"
  by (simp add: maxChatTs_def)

text \<open>
  C4, amended. A poll cycle whose batch holds only keys that are already in the window
  leaves the window as it is when the window has at most 200 items (a longer window is
  cut to its last 200 if the batch is not empty), and then the forward cursor, which is
  recomputed from the window by \<^verbatim>\<open>maxChatTs\<close> at the next cycle, is unchanged too: an
  item that is skipped never advances it.
\<close>

theorem repeated_batch_keeps_cursor:
  assumes "\<forall>it\<in>set (delta_items r). chatItemKey it \<in> chatItemKey ` set (chatItems st)"
  shows "chatItems (pollSessionsHistory_merged now ctx r st) =
           (if delta_items r \<noteq> [] \<and> 200 < length (chatItems st)
            then drop (length (chatItems st) - 200) (chatItems st) else chatItems st)
         \<and> (length (chatItems st) \<le> 200 \<longrightarrow>
              maxChatTs (pollSessionsHistory_merged now ctx r st) = maxChatTs st)"
proof -
  have w: "chatItems (pollSessionsHistory_merged now ctx r st) =
           (if delta_items r \<noteq> [] \<and> 200 < length (chatItems st)
            then drop (length (chatItems st) - 200) (chatItems st) else chatItems st)"
    using merge_newer_all_present [OF assms] by (simp only: merged_chatItems)
  then have "length (chatItems st) \<le> 200 \<longrightarrow>
      chatItems (pollSessionsHistory_merged now ctx r st) = chatItems st"
    by simp
  with w show ?thesis using merged_maxChatTs [of now ctx r st] by blast
qed

text \<open>The service echoes \<open>a1\<close>: window and cursor stay.\<close>

theorem repeated_batch_keeps_cursor_witness:
  "chatItemKey ` set (delta_items echo_delta) \<subseteq> chatItemKey ` set (chatItems session_A)
   \<and> length (chatItems session_A) \<le> 200
   \<and> chatItems (pollSessionsHistory_merged 5 poll_of_A echo_delta session_A) = chatItems session_A
   \<and> maxChatTs (pollSessionsHistory_merged 5 poll_of_A echo_delta session_A) = maxChatTs session_A"
proof -
  have h: "\<forall>it\<in>set (delta_items echo_delta). chatItemKey it \<in> chatItemKey ` set (chatItems session_A)"
    by (simp add: echo_delta_def delta_items_def session_A_eq chatItemKey_def msg_def)
  have l: "length (chatItems session_A) \<le> 200"
    by (simp add: session_A_eq)
  show ?thesis
    using h l repeated_batch_keeps_cursor [OF h, of 5 poll_of_A] by auto
qed

text \<open>C4 as stated fails: the echoed item carries the later timestamp \<open>t20\<close>, its key is in
  the window, and the cursor stays at \<open>t10\<close>. And a window of 201 items does not survive a
  batch of known keys: it is cut to 200.\<close>

theorem repeated_batch_counterexample:
  "map chatItemKey (delta_items echo_delta) = map chatItemKey (chatItems session_A)
   \<and> maxChatTs session_A = ''t10''
   \<and> map ts (delta_items echo_delta) = [''t20'']
   \<and> maxChatTs (pollSessionsHistory_merged 5 poll_of_A echo_delta session_A) = ''t10''
   \<and> (''t10'' :: string) < ''t20''
   \<and> chatItemKey (nth_msg 200) \<in> chatItemKey ` set (map nth_msg [0..<201])
   \<and> length (merge_newer (map nth_msg [0..<201]) [nth_msg 200]) = 200"
proof -
  have known: "\<forall>it\<in>set [nth_msg 200]. chatItemKey it \<in> chatItemKey ` set (map nth_msg [0..<201])"
    by auto
  have "length (merge_newer (map nth_msg [0..<201]) [nth_msg 200]) = 200"
    by (simp add: merge_newer_all_present [OF known])
  moreover have "map chatItemKey (delta_items echo_delta) = map chatItemKey (chatItems session_A)
   \<and> maxChatTs session_A = ''t10''
   \<and> map ts (delta_items echo_delta) = [''t20'']
   \<and> maxChatTs (pollSessionsHistory_merged 5 poll_of_A echo_delta session_A) = ''t10''
   \<and> (''t10'' :: string) < ''t20''"
    by (simp add: merged_chatItems maxChatTs_def merge_newer_def echo_delta_def delta_items_def
        session_A_eq chatItemKey_def msg_def Let_def)
  ultimately show ?thesis using known by simp
qed

section \<open>Merging a batch twice\<close>

lemma merge_loop_distinct:
  "distinct (map chatItemKey w) \<Longrightarrow> chatItemKey ` set w \<subseteq> ex \<Longrightarrow>
     distinct (map chatItemKey (merge_loop ex w b))"
proof (induction b arbitrary: ex w)
  case Nil
  then show ?case by simp
next
  case (Cons it rest)
  show ?case
  proof (cases "chatItemKey it \<in> ex")
    case True
    then show ?thesis using Cons.IH [of w ex] Cons.prems by (simp add: Let_def)
  next
    case False
    with Cons.prems have "distinct (map chatItemKey (w @ [it]))"
      and "chatItemKey ` set (w @ [it]) \<subseteq> insert (chatItemKey it) ex"
      by auto
    then have "distinct (map chatItemKey (merge_loop (insert (chatItemKey it) ex) (w @ [it]) rest))"
      by (rule Cons.IH)
    with False show ?thesis by (simp add: chatItemKey_nonempty Let_def)
  qed
qed

lemma merge_newer_distinct:
  "distinct (map chatItemKey w) \<Longrightarrow> distinct (map chatItemKey (merge_newer w b))"
  using merge_loop_distinct [of w "chatItemKey ` set w" b]
  by (simp add: merge_newer_def Let_def drop_map [symmetric] del: drop_map)

lemma nth_msg_key: "chatItemKey (nth_msg n) = CHR ''m'' # toString16 n"
  by (simp add: nth_msg_def msg_def chatItemKey_def)

lemma msg_key: "i \<noteq> [] \<Longrightarrow> chatItemKey (msg i t r s) = i"
  by (simp add: msg_def chatItemKey_def)

lemma not_nth_msg_key: "hd k \<noteq> CHR ''m'' \<Longrightarrow> k \<notin> chatItemKey ` set (map nth_msg ns)"
  by (auto simp add: nth_msg_key)

lemma merge_loop_skip:
  "chatItemKey it \<in> ex \<Longrightarrow> merge_loop ex w (it # rest) = merge_loop ex w rest"
  by (simp add: Let_def)

lemma merge_loop_push:
  "chatItemKey it \<notin> ex \<Longrightarrow>
     merge_loop ex w (it # rest) = merge_loop (insert (chatItemKey it) ex) (w @ [it]) rest"
  by (simp add: Let_def chatItemKey_nonempty)

lemma merge_newer_unfold:
  "b \<noteq> [] \<Longrightarrow> merge_loop (chatItemKey ` set w) w b = w' \<Longrightarrow>
     merge_newer w b = (if 200 < length w' then drop (length w' - 200) w' else w')"
  by (simp add: merge_newer_def Let_def)

lemma overlap_batch_nonempty: "overlap_batch \<noteq> []"
  by (simp add: overlap_batch_def)

lemma full_window_first_merge:
  "merge_newer full_window overlap_batch
     = map nth_msg [1..<200] @ [msg ''fresh'' ''t2000'' ''agent'' ''main'']"
proof -
  let ?first = "msg ''first'' ''t0fff'' ''user'' ''main''"
  let ?fresh = "msg ''fresh'' ''t2000'' ''agent'' ''main''"
  let ?K = "chatItemKey ` set full_window"
  have in1: "chatItemKey ?first \<in> ?K"
    by (simp add: full_window_def)
  have out1: "chatItemKey ?fresh \<notin> ?K"
    using not_nth_msg_key [of "''fresh''" "[1..<200]"]
    by (simp add: full_window_def msg_key)
  have "merge_loop ?K full_window overlap_batch = merge_loop ?K full_window [?fresh]"
    unfolding overlap_batch_def using in1 by (rule merge_loop_skip)
  also have "\<dots> = merge_loop (insert (chatItemKey ?fresh) ?K) (full_window @ [?fresh]) []"
    using out1 by (rule merge_loop_push)
  finally have "merge_loop ?K full_window overlap_batch = full_window @ [?fresh]"
    by simp
  with overlap_batch_nonempty have "merge_newer full_window overlap_batch =
      (if 200 < length (full_window @ [?fresh])
       then drop (length (full_window @ [?fresh]) - 200) (full_window @ [?fresh])
       else full_window @ [?fresh])"
    by (rule merge_newer_unfold)
  also have "\<dots> = map nth_msg [1..<200] @ [?fresh]"
    by (simp add: full_window_def)
  finally show ?thesis .
qed

lemma full_window_second_merge:
  "merge_newer (map nth_msg [1..<200] @ [msg ''fresh'' ''t2000'' ''agent'' ''main'']) overlap_batch
     = drop 1 (map nth_msg [1..<200]) @ [msg ''fresh'' ''t2000'' ''agent'' ''main'',
         msg ''first'' ''t0fff'' ''user'' ''main'']"
proof -
  let ?first = "msg ''first'' ''t0fff'' ''user'' ''main''"
  let ?fresh = "msg ''fresh'' ''t2000'' ''agent'' ''main''"
  let ?w = "map nth_msg [1..<200] @ [?fresh]"
  let ?K = "chatItemKey ` set ?w"
  have out1: "chatItemKey ?first \<notin> ?K"
    using not_nth_msg_key [of "''first''" "[1..<200]"]
    by (simp add: msg_key)
  have in2: "chatItemKey ?fresh \<in> insert (chatItemKey ?first) ?K"
    by simp
  have "merge_loop ?K ?w overlap_batch
      = merge_loop (insert (chatItemKey ?first) ?K) (?w @ [?first]) [?fresh]"
    unfolding overlap_batch_def using out1 by (rule merge_loop_push)
  also have "\<dots> = merge_loop (insert (chatItemKey ?first) ?K) (?w @ [?first]) []"
    using in2 by (rule merge_loop_skip)
  finally have "merge_loop ?K ?w overlap_batch = ?w @ [?first]"
    by simp
  with overlap_batch_nonempty have "merge_newer ?w overlap_batch =
      (if 200 < length (?w @ [?first])
       then drop (length (?w @ [?first]) - 200) (?w @ [?first])
       else ?w @ [?first])"
    by (rule merge_newer_unfold)
  also have "\<dots> = drop 1 (map nth_msg [1..<200]) @ [?fresh, ?first]"
    by simp
  finally show ?thesis .
qed

lemma merge_loop_batch_keys:
  "chatItemKey ` set b \<subseteq> ex \<union> chatItemKey ` set (merge_loop ex [] b)"
proof (induction b arbitrary: ex)
  case Nil
  show ?case by simp
next
  case (Cons it rest)
  show ?case
  proof (cases "chatItemKey it \<in> ex")
    case True
    with Cons.IH [of ex] show ?thesis
      by (auto simp add: Let_def)
  next
    case False
    have "merge_loop ex [] (it # rest) = it # merge_loop (insert (chatItemKey it) ex) [] rest"
      using False merge_loop_append [of "insert (chatItemKey it) ex" "[it]" rest]
      by (simp add: Let_def chatItemKey_nonempty)
    with Cons.IH [of "insert (chatItemKey it) ex"] show ?thesis
      by auto
  qed
qed

lemma length_merge_loop: "length (merge_loop ex w b) \<le> length w + length b"
proof (induction b arbitrary: ex w)
  case Nil
  show ?case by simp
next
  case (Cons it rest)
  have "length (merge_loop ex w rest) \<le> length w + length rest"
    and "length (merge_loop (insert (chatItemKey it) ex) (w @ [it]) rest)
           \<le> length (w @ [it]) + length rest"
    by (rule Cons.IH)+
  then show ?case by (simp add: Let_def)
qed

lemma merge_newer_fits:
  assumes "length w + length b \<le> 200"
  shows "chatItemKey ` set b \<subseteq> chatItemKey ` set (merge_newer w b)"
proof -
  let ?m = "merge_loop (chatItemKey ` set w) w b"
  have "length ?m \<le> 200"
    using assms length_merge_loop [of "chatItemKey ` set w" w b] by simp
  then have m: "merge_newer w b = (if b \<noteq> [] then ?m else w)"
    by (simp add: merge_newer_def Let_def)
  have "?m = w @ merge_loop (chatItemKey ` set w) [] b"
    by (rule merge_loop_append)
  then have "chatItemKey ` set ?m
      = chatItemKey ` set w \<union> chatItemKey ` set (merge_loop (chatItemKey ` set w) [] b)"
    by (simp add: image_Un)
  with merge_loop_batch_keys [of b "chatItemKey ` set w"]
  have "chatItemKey ` set b \<subseteq> chatItemKey ` set ?m"
    by simp
  with m show ?thesis by (cases "b = []") simp_all
qed

text \<open>
  C5, amended. Merging the same batch a second time leaves the window unchanged provided
  the window and the batch together hold at most 200 items or, more generally, the trim
  of the first merge has evicted no item whose key occurs in the batch (every key of the
  batch is in the window after the first merge). And the merge adds no duplicate: if no two items
  of the window shared a dedupe key, no two items of the merged window do. (The merge is
  \<open>merge_newer\<close>, what \<^verbatim>\<open>pollSessionsHistory\<close> does to \<^verbatim>\<open>chatItems\<close>.)
\<close>

theorem merge_idempotent:
  assumes "length w + length b \<le> 200
           \<or> chatItemKey ` set b \<subseteq> chatItemKey ` set (merge_newer w b)"
  shows "merge_newer (merge_newer w b) b = merge_newer w b
         \<and> (distinct (map chatItemKey w) \<longrightarrow> distinct (map chatItemKey (merge_newer w b)))"
proof -
  from assms have keys: "chatItemKey ` set b \<subseteq> chatItemKey ` set (merge_newer w b)"
    using merge_newer_fits [of w b] by blast
  have "merge_newer (merge_newer w b) b = merge_newer w b"
  proof (cases "b = []")
    case True
    then show ?thesis by (simp add: merge_newer_def)
  next
    case False
    from keys have "\<forall>it\<in>set b. chatItemKey it \<in> chatItemKey ` set (merge_newer w b)"
      by auto
    then have "merge_newer (merge_newer w b) b =
        (if b \<noteq> [] \<and> 200 < length (merge_newer w b)
         then drop (length (merge_newer w b) - 200) (merge_newer w b) else merge_newer w b)"
      by (rule merge_newer_all_present)
    moreover from False have "length (merge_newer w b) \<le> 200"
      by (rule length_merge_newer_nonempty)
    ultimately show ?thesis by simp
  qed
  then show ?thesis using merge_newer_distinct [of w b] by blast
qed

text \<open>The window \<open>[a1]\<close> and the batch \<open>[a1, a2]\<close>.\<close>

theorem merge_idempotent_witness:
  "length [msg ''a1'' ''t10'' ''agent'' ''A'']
     + length [msg ''a1'' ''t10'' ''agent'' ''A'', msg ''a2'' ''t30'' ''agent'' ''A''] \<le> 200
   \<and> chatItemKey ` set [msg ''a1'' ''t10'' ''agent'' ''A'', msg ''a2'' ''t30'' ''agent'' ''A'']
     \<subseteq> chatItemKey ` set (merge_newer [msg ''a1'' ''t10'' ''agent'' ''A'']
           [msg ''a1'' ''t10'' ''agent'' ''A'', msg ''a2'' ''t30'' ''agent'' ''A''])
   \<and> distinct (map chatItemKey [msg ''a1'' ''t10'' ''agent'' ''A''])
   \<and> merge_newer (merge_newer [msg ''a1'' ''t10'' ''agent'' ''A'']
        [msg ''a1'' ''t10'' ''agent'' ''A'', msg ''a2'' ''t30'' ''agent'' ''A''])
        [msg ''a1'' ''t10'' ''agent'' ''A'', msg ''a2'' ''t30'' ''agent'' ''A'']
      = [msg ''a1'' ''t10'' ''agent'' ''A'', msg ''a2'' ''t30'' ''agent'' ''A'']
   \<and> distinct (map chatItemKey (merge_newer [msg ''a1'' ''t10'' ''agent'' ''A'']
        [msg ''a1'' ''t10'' ''agent'' ''A'', msg ''a2'' ''t30'' ''agent'' ''A'']))"
proof -
  let ?w = "[msg ''a1'' ''t10'' ''agent'' ''A'']"
  let ?b = "[msg ''a1'' ''t10'' ''agent'' ''A'', msg ''a2'' ''t30'' ''agent'' ''A'']"
  have m: "merge_newer ?w ?b = ?b"
    by (simp add: merge_newer_def chatItemKey_def msg_def Let_def)
  have h: "chatItemKey ` set ?b \<subseteq> chatItemKey ` set (merge_newer ?w ?b)"
    by (simp add: m)
  have d: "distinct (map chatItemKey ?w)"
    by simp
  have hd: "length ?w + length ?b \<le> 200 \<or> chatItemKey ` set ?b \<subseteq> chatItemKey ` set (merge_newer ?w ?b)"
    by simp
  show ?thesis using h d merge_idempotent [OF hd] by (simp add: m)
qed

text \<open>C5 as stated fails. With the window at capacity, the batch \<open>[first, fresh]\<close> appends
  \<open>fresh\<close> and the trim evicts \<open>first\<close>; merging the batch again appends \<open>first\<close> at
  the end. And a window that holds a key twice keeps it twice.\<close>

theorem merge_idempotent_counterexample:
  "merge_newer (merge_newer full_window overlap_batch) overlap_batch
     \<noteq> merge_newer full_window overlap_batch
   \<and> \<not> distinct (map chatItemKey (merge_newer
          [msg ''a1'' ''t10'' ''agent'' ''A'', msg ''a1'' ''t10'' ''agent'' ''A''] []))"
proof -
  have "merge_newer (merge_newer full_window overlap_batch) overlap_batch
      = drop 1 (map nth_msg [1..<200]) @ [msg ''fresh'' ''t2000'' ''agent'' ''main'',
         msg ''first'' ''t0fff'' ''user'' ''main'']"
    by (simp only: full_window_first_merge full_window_second_merge)
  then have "last (merge_newer (merge_newer full_window overlap_batch) overlap_batch)
      = msg ''first'' ''t0fff'' ''user'' ''main''"
    by simp
  moreover have "last (merge_newer full_window overlap_batch) = msg ''fresh'' ''t2000'' ''agent'' ''main''"
    by (simp add: full_window_first_merge)
  moreover have "msg ''first'' ''t0fff'' ''user'' ''main'' \<noteq> msg ''fresh'' ''t2000'' ''agent'' ''main''"
    by (simp add: msg_def)
  ultimately have "merge_newer (merge_newer full_window overlap_batch) overlap_batch
     \<noteq> merge_newer full_window overlap_batch"
    by metis
  then show ?thesis by (simp add: merge_newer_def)
qed

section \<open>Order of the window\<close>

lemma maxChatTs_loop_ge:
  "mx \<le> maxChatTs_loop mx w \<and> (\<forall>x\<in>set w. ts x \<le> maxChatTs_loop mx w)"
proof (induction w arbitrary: mx)
  case Nil
  show ?case by simp
next
  case (Cons it rest)
  show ?case
  proof (cases "ts it \<noteq> [] \<and> ts it > mx")
    case True
    with Cons.IH [of "ts it"] show ?thesis by auto
  next
    case False
    then have "ts it \<le> mx" by (cases "ts it = []") auto
    with False Cons.IH [of mx] show ?thesis by auto
  qed
qed

lemma merge_loop_Cons:
  "merge_loop ex [] (it # rest) =
     (if chatItemKey it \<in> ex then merge_loop ex [] rest
      else it # merge_loop (insert (chatItemKey it) ex) [] rest)"
  using merge_loop_append [of "insert (chatItemKey it) ex" "[it]" rest]
  by (simp add: Let_def chatItemKey_nonempty)

lemma merge_loop_subset: "set (merge_loop ex [] b) \<subseteq> set b"
  by (induction b arbitrary: ex) (auto simp add: merge_loop_Cons simp del: merge_loop.simps(2))

lemma merge_loop_ascending: "ascending b \<Longrightarrow> ascending (merge_loop ex [] b)"
proof (induction b arbitrary: ex)
  case Nil
  then show ?case by (simp add: ascending_def)
next
  case (Cons it rest)
  from Cons.prems have rest: "ascending rest" and le: "\<forall>x\<in>set rest. ts it \<le> ts x"
    by (auto simp add: ascending_def)
  show ?case
  proof (cases "chatItemKey it \<in> ex")
    case True
    with Cons.IH [OF rest, of ex] show ?thesis by (simp add: merge_loop_Cons del: merge_loop.simps(2))
  next
    case False
    have "\<forall>x\<in>set (merge_loop (insert (chatItemKey it) ex) [] rest). ts it \<le> ts x"
      using le merge_loop_subset [of "insert (chatItemKey it) ex" rest] by blast
    with False Cons.IH [OF rest, of "insert (chatItemKey it) ex"] show ?thesis
      by (simp add: merge_loop_Cons ascending_def del: merge_loop.simps(2))
  qed
qed

lemma merge_newer_ascending:
  assumes "ascending w" and "ascending b" and "\<forall>it\<in>set b. maxChatTs_loop [] w \<le> ts it"
  shows "ascending (merge_newer w b)"
proof -
  let ?new = "merge_loop (chatItemKey ` set w) [] b"
  have "\<forall>x\<in>set w. \<forall>y\<in>set ?new. ts x \<le> ts y"
  proof (intro ballI)
    fix x y
    assume "x \<in> set w" and "y \<in> set ?new"
    then have "ts x \<le> maxChatTs_loop [] w" and "maxChatTs_loop [] w \<le> ts y"
      using maxChatTs_loop_ge [of "[]" w] assms(3) merge_loop_subset [of "chatItemKey ` set w" b]
      by auto
    then show "ts x \<le> ts y" by (rule order_trans)
  qed
  with assms(1) merge_loop_ascending [OF assms(2), of "chatItemKey ` set w"]
  have "ascending (w @ ?new)"
    by (auto simp add: ascending_def sorted_append)
  then have asc: "ascending (merge_loop (chatItemKey ` set w) w b)"
    by (simp add: merge_loop_append [of _ w b] del: merge_loop.simps(2))
  then have "ascending (drop n (merge_loop (chatItemKey ` set w) w b))" for n
    unfolding ascending_def drop_map [symmetric] by (rule sorted_wrt_drop)
  with asc assms(1) show ?thesis
    by (simp add: merge_newer_def Let_def)
qed

lemma prepend_older_ascending:
  assumes "ascending w" and "ascending page"
    and "\<forall>it\<in>set page. \<forall>x\<in>set w. ts it \<le> ts x"
  shows "ascending (prepend_older w page)"
proof -
  let ?p = "older_prepend w page"
  have sub: "set ?p \<subseteq> set page"
    by (auto simp add: older_prepend_def)
  have "ascending ?p"
    using assms(2) unfolding ascending_def older_prepend_def Let_def
    by (simp add: sorted_filter)
  moreover have "\<forall>x\<in>set ?p. \<forall>y\<in>set w. ts x \<le> ts y"
    using sub assms(3) by blast
  ultimately have "ascending (?p @ w)"
    using assms(1) unfolding ascending_def by (simp add: sorted_append)
  with assms(1) show ?thesis
    by (simp add: prepend_older_def Let_def)
qed

lemma apply_op_ascending:
  assumes "ascending w" and "server_contract op" and "in_time w op"
  shows "ascending (apply_op op w)"
proof (cases op)
  case (Poll after newer)
  have "\<forall>it\<in>set newer. maxChatTs_loop [] w \<le> ts it"
  proof (cases after)
    case None
    with Poll assms(3) show ?thesis by simp
  next
    case (Some t)
    with Poll assms(2,3) have "maxChatTs_loop [] w \<le> t" and "\<forall>it\<in>set newer. t \<le> ts it"
      by (simp_all add: list_all_iff)
    then show ?thesis by (meson order_trans)
  qed
  with Poll assms(1,2) show ?thesis
    by (simp add: merge_newer_ascending)
next
  case (Older anchor page)
  have "\<forall>it\<in>set page. \<forall>x\<in>set w. ts it \<le> ts x"
  proof (cases w)
    case Nil
    then show ?thesis by simp
  next
    case (Cons first rest)
    with Older assms(3) have a: "ts anchor \<le> ts first" by simp
    from Cons assms(1) have f: "\<forall>x\<in>set w. ts first \<le> ts x"
      by (auto simp add: ascending_def)
    from Older assms(2) have p: "\<forall>it\<in>set page. ts it < ts anchor"
      by (simp add: list_all_iff)
    show ?thesis
    proof (intro ballI)
      fix it x
      assume "it \<in> set page" and "x \<in> set w"
      with p f have "ts it < ts anchor" and "ts first \<le> ts x" by auto
      with a show "ts it \<le> ts x" by simp
    qed
  qed
  with Older assms(1,2) show ?thesis
    by (simp add: prepend_older_ascending)
qed

lemma run_ops_ascending:
  "ascending w \<Longrightarrow> contracts_hold w ops \<Longrightarrow> ascending (run_ops ops w)"
proof (induction ops arbitrary: w)
  case Nil
  then show ?case by (simp add: run_ops_def)
next
  case (Cons op ops)
  from Cons.prems have "ascending (apply_op op w)" and "contracts_hold (apply_op op w) ops"
    by (simp_all add: apply_op_ascending)
  then have "ascending (run_ops ops (apply_op op w))"
    by (rule Cons.IH)
  then show ?case by (simp add: run_ops_def)
qed

lemma beforeId_anchor: "beforeId w = map_option item_id (anchor_item w)"
  by (induction w) (simp_all add: anchor_item_def)

lemma sent_in_time: "in_time w (Poll (sent_after_ts w) newer)"
  by (simp add: sent_after_ts_def Let_def)

lemma head_anchor_in_time:
  "item_id a \<noteq> [] \<Longrightarrow> anchor_item (a # rest) = Some a \<and> in_time (a # rest) (Older a page)"
  by (simp add: anchor_item_def)

text \<open>
  C6, amended. Start from a window that is non-decreasing by timestamp. After every
  sequence of poll merges and pagination prepends whose responses satisfy the ordering
  contract for their own queries (a delta batch ascending with timestamps at or above the
  \<^verbatim>\<open>after_ts\<close> its query sent, a page ascending and strictly older than the anchor whose
  id its query sent), the window is non-decreasing by timestamp, provided that at the
  moment each response is applied the window's maximum timestamp does not exceed the
  boundary the query sent and the window's first item is not older than the anchor the
  query sent. The boundary a poll sends is the maximum timestamp of the window at that
  moment and the anchor a pagination sends is the first item that has an id, so both
  provisos hold when the window has not changed since the query was sent and, for a
  page, the window's first item carries an id.
\<close>

theorem window_stays_ascending:
  "(ascending w \<and> contracts_hold w ops \<longrightarrow> ascending (run_ops ops w))
   \<and> map_option q_after_ts (snd (pollSessionsHistory_refreshed now ctx (Inr ()) st))
       = Some (sent_after_ts (chatItems st))
   \<and> (\<not> chatLoadingOlder st \<longrightarrow>
        map_option q_before_id (snd (loadOlderChat_start st))
          = map_option (\<lambda>a. Some (item_id a)) (anchor_item (chatItems st)))
   \<and> in_time w (Poll (sent_after_ts w) newer)
   \<and> (item_id a \<noteq> [] \<longrightarrow>
        anchor_item (a # rest) = Some a \<and> in_time (a # rest) (Older a page))"
proof -
  have "map_option q_after_ts (snd (pollSessionsHistory_refreshed now ctx (Inr ()) st))
       = Some (sent_after_ts (chatItems st))"
    by (simp add: pollSessionsHistory_refreshed_def sent_after_ts_def maxChatTs_def Let_def)
  moreover have "\<not> chatLoadingOlder st \<longrightarrow>
        map_option q_before_id (snd (loadOlderChat_start st))
          = map_option (\<lambda>a. Some (item_id a)) (anchor_item (chatItems st))"
    by (cases "anchor_item (chatItems st)")
      (simp_all add: loadOlderChat_start_def beforeId_anchor)
  ultimately show ?thesis
    using run_ops_ascending [of w ops] sent_in_time [of w newer] head_anchor_in_time [of a rest page]
    by blast
qed

text \<open>From \<open>[a1]\<close>, a poll sent with the boundary \<open>t10\<close> and a page sent with the anchor
  \<open>a1\<close> give \<open>[a0, a1, a2]\<close>.\<close>

theorem window_stays_ascending_witness:
  "ascending [msg ''a1'' ''t10'' ''agent'' ''A'']
   \<and> sent_after_ts [msg ''a1'' ''t10'' ''agent'' ''A''] = Some ''t10''
   \<and> contracts_hold [msg ''a1'' ''t10'' ''agent'' ''A''] sample_ops
   \<and> run_ops sample_ops [msg ''a1'' ''t10'' ''agent'' ''A'']
       = [msg ''a0'' ''t05'' ''user'' ''A'', msg ''a1'' ''t10'' ''agent'' ''A'',
          msg ''a2'' ''t30'' ''agent'' ''A'']
   \<and> ascending (run_ops sample_ops [msg ''a1'' ''t10'' ''agent'' ''A''])
   \<and> \<not> chatLoadingOlder session_A
   \<and> map_option q_before_id (snd (loadOlderChat_start session_A)) = Some (Some ''a1'')"
proof -
  have a: "ascending [msg ''a1'' ''t10'' ''agent'' ''A'']"
    by (simp add: ascending_def)
  have s: "sent_after_ts [msg ''a1'' ''t10'' ''agent'' ''A''] = Some ''t10''"
    by (simp add: sent_after_ts_def msg_def)
  have m: "merge_newer [msg ''a1'' ''t10'' ''agent'' ''A'']
      [msg ''a1'' ''t10'' ''agent'' ''A'', msg ''a2'' ''t30'' ''agent'' ''A'']
      = [msg ''a1'' ''t10'' ''agent'' ''A'', msg ''a2'' ''t30'' ''agent'' ''A'']"
    by (simp add: merge_newer_def chatItemKey_def msg_def Let_def)
  have c: "contracts_hold [msg ''a1'' ''t10'' ''agent'' ''A''] sample_ops"
    by (simp add: sample_ops_def m) (simp add: ascending_def msg_def)
  have r: "run_ops sample_ops [msg ''a1'' ''t10'' ''agent'' ''A'']
       = [msg ''a0'' ''t05'' ''user'' ''A'', msg ''a1'' ''t10'' ''agent'' ''A'',
          msg ''a2'' ''t30'' ''agent'' ''A'']"
    by (simp add: sample_ops_def run_ops_def m) (simp add: prepend_older_def older_prepend_def msg_def)
  have l: "\<not> chatLoadingOlder session_A"
    by (simp add: session_A_eq)
  have an: "anchor_item (chatItems session_A) = Some (msg ''a1'' ''t10'' ''agent'' ''A'')"
    by (simp add: session_A_eq anchor_item_def msg_def)
  show ?thesis
    using a s c r l an
      window_stays_ascending [of "[msg ''a1'' ''t10'' ''agent'' ''A'']" sample_ops _ _ session_A]
    by (simp add: msg_def)
qed

text \<open>C6 as stated fails, in two ways. In a window whose oldest item has no id the anchor is
  the second item, and a page that is older than the anchor and newer than the oldest item
  is put in front of it. And a delta batch that is at or above the boundary \<open>t10\<close> its query
  sent from session \<open>A\<close> is appended, after the switch, to a window that already holds
  \<open>t20\<close>.\<close>

theorem window_ascending_counterexample:
  "ascending mixed_window
   \<and> anchor_item mixed_window = Some (msg ''a1'' ''t20'' ''agent'' ''A'')
   \<and> server_contract (Older (msg ''a1'' ''t20'' ''agent'' ''A'') [msg ''a0'' ''t15'' ''user'' ''A''])
   \<and> run_ops [Older (msg ''a1'' ''t20'' ''agent'' ''A'') [msg ''a0'' ''t15'' ''user'' ''A'']] mixed_window
       = [msg ''a0'' ''t15'' ''user'' ''A'', msg [] ''t10'' ''user'' ''A'',
          msg ''a1'' ''t20'' ''agent'' ''A'']
   \<and> \<not> ascending (run_ops [Older (msg ''a1'' ''t20'' ''agent'' ''A'')
          [msg ''a0'' ''t15'' ''user'' ''A'']] mixed_window)
   \<and> sent_after_ts (chatItems session_A) = Some ''t10''
   \<and> server_contract (Poll (Some ''t10'') (delta_items stale_delta))
   \<and> ascending [msg ''b1'' ''t20'' ''agent'' ''B'']
   \<and> run_ops [Poll (Some ''t10'') (delta_items stale_delta)] [msg ''b1'' ''t20'' ''agent'' ''B'']
       = chatItems (vars (run stale_trace init_system))
   \<and> \<not> ascending (chatItems (vars (run stale_trace init_system)))"
proof -
  have tr: "chatItems (vars (run stale_trace init_system))
       = [msg ''b1'' ''t20'' ''agent'' ''B'', msg ''a1'' ''t10'' ''agent'' ''A'',
          msg ''a2'' ''t30'' ''agent'' ''A'']"
    by (simp add: stale_trace_def stale_delta_def poll_of_A_def eval_defs)
  have "ascending mixed_window
   \<and> anchor_item mixed_window = Some (msg ''a1'' ''t20'' ''agent'' ''A'')
   \<and> server_contract (Older (msg ''a1'' ''t20'' ''agent'' ''A'') [msg ''a0'' ''t15'' ''user'' ''A''])
   \<and> run_ops [Older (msg ''a1'' ''t20'' ''agent'' ''A'') [msg ''a0'' ''t15'' ''user'' ''A'']] mixed_window
       = [msg ''a0'' ''t15'' ''user'' ''A'', msg [] ''t10'' ''user'' ''A'',
          msg ''a1'' ''t20'' ''agent'' ''A'']
   \<and> \<not> ascending (run_ops [Older (msg ''a1'' ''t20'' ''agent'' ''A'')
          [msg ''a0'' ''t15'' ''user'' ''A'']] mixed_window)"
    by (simp add: mixed_window_def ascending_def anchor_item_def run_ops_def prepend_older_def
        older_prepend_def msg_def)
  moreover have "sent_after_ts (chatItems session_A) = Some ''t10''
   \<and> server_contract (Poll (Some ''t10'') (delta_items stale_delta))
   \<and> ascending [msg ''b1'' ''t20'' ''agent'' ''B'']"
    by (simp add: session_A_eq sent_after_ts_def stale_delta_def delta_items_def ascending_def msg_def)
  moreover have "run_ops [Poll (Some ''t10'') (delta_items stale_delta)] [msg ''b1'' ''t20'' ''agent'' ''B'']
       = chatItems (vars (run stale_trace init_system))"
    by (simp add: tr) (simp add: run_ops_def merge_newer_def stale_delta_def delta_items_def
        chatItemKey_def msg_def Let_def)
  moreover have "\<not> ascending (chatItems (vars (run stale_trace init_system)))"
    by (simp add: tr) (simp add: ascending_def msg_def)
  ultimately show ?thesis by blast
qed

section \<open>The count of appended agent messages\<close>








section \<open>The anchor of backward pagination\<close>

lemma beforeId_None: "beforeId w = None \<longleftrightarrow> (\<forall>it\<in>set w. item_id it = [])"
  by (induction w) auto

lemma beforeId_first:
  "(\<forall>it\<in>set pre. item_id it = []) \<Longrightarrow> item_id a \<noteq> [] \<Longrightarrow>
     beforeId (pre @ a # post) = Some (item_id a)"
  by (induction pre) auto

text \<open>
  C8, amended. A call of \<^verbatim>\<open>loadOlderChat\<close> that is not held back by the in-flight guard
  takes as anchor the id of the first item in window order that has an id (every item
  before it has none) and sends it as \<^verbatim>\<open>before_id\<close>; timestamps are not compared. The
  anchor is the oldest item of the window when the window is non-decreasing by timestamp
  and its first item carries an id. If no item of the window has an id, in particular if
  the window is empty, the call issues no request, leaves the window as it is and sets
  \<^verbatim>\<open>chatHasOlder\<close> to false.
\<close>

theorem pagination_anchor:
  assumes "\<not> chatLoadingOlder st"
  shows "((\<forall>it\<in>set (chatItems st). item_id it = []) \<longrightarrow>
            loadOlderChat_start st = (st\<lparr>chatHasOlder := False\<rparr>, None))
         \<and> (chatItems st = pre @ a # post \<and> (\<forall>it\<in>set pre. item_id it = [])
               \<and> item_id a \<noteq> [] \<longrightarrow>
               loadOlderChat_start st =
                 (st\<lparr>chatLoadingOlder := True\<rparr>,
                  Some \<lparr> q_session_key = chatSessionKey st, q_after_ts = None,
                         q_before_id = Some (item_id a), q_limit = 50 \<rparr>))
         \<and> (chatItems st = a # post \<and> item_id a \<noteq> [] \<and> ascending (chatItems st) \<longrightarrow>
               map_option q_before_id (snd (loadOlderChat_start st)) = Some (Some (item_id a))
               \<and> list_all (\<lambda>it. ts a \<le> ts it) (chatItems st))"
proof (intro conjI impI)
  assume "\<forall>it\<in>set (chatItems st). item_id it = []"
  then have "beforeId (chatItems st) = None"
    by (simp add: beforeId_None)
  with assms show "loadOlderChat_start st = (st\<lparr>chatHasOlder := False\<rparr>, None)"
    by (simp add: loadOlderChat_start_def)
next
  assume "chatItems st = pre @ a # post \<and> (\<forall>it\<in>set pre. item_id it = []) \<and> item_id a \<noteq> []"
  then have "beforeId (chatItems st) = Some (item_id a)"
    by (simp add: beforeId_first)
  with assms show "loadOlderChat_start st =
      (st\<lparr>chatLoadingOlder := True\<rparr>,
       Some \<lparr> q_session_key = chatSessionKey st, q_after_ts = None,
              q_before_id = Some (item_id a), q_limit = 50 \<rparr>)"
    by (simp add: loadOlderChat_start_def CHAT_HISTORY_PAGE_LIMIT_def)
next
  assume h: "chatItems st = a # post \<and> item_id a \<noteq> [] \<and> ascending (chatItems st)"
  with assms show "map_option q_before_id (snd (loadOlderChat_start st)) = Some (Some (item_id a))"
    by (simp add: loadOlderChat_start_def)
next
  assume h: "chatItems st = a # post \<and> item_id a \<noteq> [] \<and> ascending (chatItems st)"
  then show "list_all (\<lambda>it. ts a \<le> ts it) (chatItems st)"
    by (auto simp add: ascending_def list_all_iff)
qed

text \<open>With one message without id and older history reported, the flag is forced to false;
  in session \<open>A\<close> the anchor is \<open>a1\<close>.\<close>

theorem pagination_anchor_witness:
  "\<not> chatLoadingOlder no_id_state \<and> map item_id (chatItems no_id_state) = [[]]
   \<and> chatHasOlder no_id_state
   \<and> loadOlderChat_start no_id_state = (no_id_state\<lparr>chatHasOlder := False\<rparr>, None)
   \<and> \<not> chatLoadingOlder session_A
   \<and> chatItems session_A = [] @ msg ''a1'' ''t10'' ''agent'' ''A'' # []
   \<and> ascending (chatItems session_A)
   \<and> loadOlderChat_start session_A =
        (session_A\<lparr>chatLoadingOlder := True\<rparr>,
         Some \<lparr> q_session_key = ''A'', q_after_ts = None, q_before_id = Some ''a1'', q_limit = 50 \<rparr>)"
proof -
  have i: "\<not> chatLoadingOlder no_id_state" and a: "\<not> chatLoadingOlder session_A"
    by (simp_all add: no_id_state_def onchange_select_def init_state_def session_A_eq)
  have n: "chatItems no_id_state = [msg [] ''t10'' ''user'' ''A'']" and o: "chatHasOlder no_id_state"
    by (simp_all add: no_id_state_def loadChatLatest_def delta_items_def)
  have w: "chatItems session_A = [] @ msg ''a1'' ''t10'' ''agent'' ''A'' # []"
    by (simp add: session_A_eq)
  have asc: "ascending (chatItems session_A)"
    by (simp add: session_A_eq ascending_def)
  from pagination_anchor [OF a, of "[]" "msg ''a1'' ''t10'' ''agent'' ''A''" "[]"] w
  have "loadOlderChat_start session_A =
        (session_A\<lparr>chatLoadingOlder := True\<rparr>,
         Some \<lparr> q_session_key = chatSessionKey session_A, q_after_ts = None,
                q_before_id = Some (item_id (msg ''a1'' ''t10'' ''agent'' ''A'')), q_limit = 50 \<rparr>)"
    by (simp add: msg_def)
  then show ?thesis
    using i a n o w asc pagination_anchor [OF i, of "[]" "msg ''a1'' ''t10'' ''agent'' ''A''" "[]"]
    by (simp add: msg_def session_A_eq)
qed

text \<open>C8 as stated fails. After the stale response of session \<open>A\<close> has been merged into the
  window of \<open>B\<close>, every item has an id, the oldest item is \<open>a1\<close> (\<open>t10\<close>) and the anchor
  is \<open>b1\<close> (\<open>t20\<close>). And in a window whose oldest item has no id the anchor is the
  newer \<open>a1\<close>.\<close>

theorem pagination_anchor_counterexample:
  "\<not> chatLoadingOlder (vars (run stale_trace init_system))
   \<and> map item_id (chatItems (vars (run stale_trace init_system))) = [''b1'', ''a1'', ''a2'']
   \<and> map ts (chatItems (vars (run stale_trace init_system))) = [''t20'', ''t10'', ''t30'']
   \<and> (''t10'' :: string) < ''t20''
   \<and> map_option q_before_id (snd (loadOlderChat_start (vars (run stale_trace init_system))))
       = Some (Some ''b1'')
   \<and> map item_id mixed_window = [[], ''a1''] \<and> map ts mixed_window = [''t10'', ''t20'']
   \<and> map_option q_before_id (snd (loadOlderChat_start (init_state\<lparr>chatItems := mixed_window\<rparr>)))
       = Some (Some ''a1'')"
  by (simp add: stale_trace_def stale_delta_def poll_of_A_def mixed_window_def eval_defs)

section \<open>One pagination request at a time\<close>

lemma stopChatPolling_loading [simp]:
  "chatLoadingOlder (stopChatPolling st) = chatLoadingOlder st"
  by (simp add: stopChatPolling_def Let_def split: option.splits)

lemma startChatPolling_loading [simp]:
  "chatLoadingOlder (startChatPolling st) = chatLoadingOlder st"
  by (simp add: startChatPolling_def)

lemma enter_loading [simp]:
  "chatLoadingOlder (fst (pollSessionsHistory_enter now st)) = chatLoadingOlder st"
  by (simp add: pollSessionsHistory_enter_def)

lemma timer_fires_loading [simp]:
  "chatLoadingOlder (timer_fires h now st) = chatLoadingOlder st"
  by (simp add: timer_fires_def)

lemma refreshed_loading [simp]:
  "chatLoadingOlder (fst (pollSessionsHistory_refreshed now ctx r st)) = chatLoadingOlder st"
  by (cases r) (simp_all add: pollSessionsHistory_refreshed_def Let_def)

lemma merged_loading [simp]:
  "chatLoadingOlder (pollSessionsHistory_merged now ctx r st) = chatLoadingOlder st"
  by (cases r) (simp_all add: pollSessionsHistory_merged_def Let_def split: prod.splits)

lemma other_loading [simp]:
  "chatLoadingOlder (onchange_select v st) = chatLoadingOlder st"
  "chatLoadingOlder (onchange_resume st) = chatLoadingOlder st"
  "chatLoadingOlder (boostChatPolling now st) = chatLoadingOlder st"
  by (simp_all add: onchange_select_def onchange_resume_def boostChatPolling_def)

lemma start_guard: "chatLoadingOlder st \<Longrightarrow> loadOlderChat_start st = (st, None)"
  by (simp add: loadOlderChat_start_def)

lemma start_request:
  "loadOlderChat_start st = (st', Some q) \<Longrightarrow> \<not> chatLoadingOlder st \<and> chatLoadingOlder st'"
  by (auto simp add: loadOlderChat_start_def split: if_splits option.splits)

lemma start_no_request:
  "loadOlderChat_start st = (st', None) \<Longrightarrow> chatLoadingOlder st' = chatLoadingOlder st"
  by (auto simp add: loadOlderChat_start_def split: if_splits option.splits)

lemma finish_resets: "\<not> chatLoadingOlder (loadOlderChat_finish r st)"
  by (cases r) (simp_all add: loadOlderChat_finish_def Let_def)

lemma step_inflight_inv: "inflight_inv sys \<Longrightarrow> inflight_inv (step e sys)"
proof (cases e)
  case LoadOlderClicked
  assume inv: "inflight_inv sys"
  obtain st' q where s: "loadOlderChat_start (vars sys) = (st', q)"
    by (cases "loadOlderChat_start (vars sys)")
  show ?thesis
  proof (cases q)
    case None
    with s inv LoadOlderClicked start_no_request [of "vars sys" st'] show ?thesis
      by (simp add: inflight_inv_def)
  next
    case (Some qq)
    with s inv LoadOlderClicked start_request [of "vars sys" st' qq] show ?thesis
      by (simp add: inflight_inv_def)
  qed
next
  case (OlderSettled r)
  assume "inflight_inv sys"
  with OlderSettled show ?thesis
    by (cases "olderInFlight sys") (simp_all add: inflight_inv_def finish_resets split: if_splits)
qed (simp_all add: inflight_inv_def)

lemma run_inflight_inv: "inflight_inv sys \<Longrightarrow> inflight_inv (run es sys)"
  unfolding run_def by (induction es arbitrary: sys) (simp_all add: step_inflight_inv)

lemma init_inflight_inv: "inflight_inv init_system"
  by (simp add: inflight_inv_def init_system_def init_state_def)

lemma two_clicks_run:
  "olderInFlight (run two_clicks init_system) = 1
   \<and> olderInFlight (run (two_clicks @ [OlderSettled (Inl ''timeout'')]) init_system) = 0
   \<and> olderInFlight (run (two_clicks @ [OlderSettled (Inl ''timeout''), LoadOlderClicked]) init_system) = 1"
  by (simp add: two_clicks_def eval_defs)

text \<open>
  C9. A call of \<^verbatim>\<open>loadOlderChat\<close> made while \<^verbatim>\<open>chatLoadingOlder\<close> is set returns at
  once: no request, no change of the state. The flag is cleared when the call in flight
  completes, whether its request resolved or failed. In every run of the panel from its
  initial state at most one pagination request is in flight, and one is in flight exactly
  when the flag is set.
\<close>

theorem pagination_single_flight:
  "(chatLoadingOlder st \<longrightarrow> loadOlderChat_start st = (st, None))
   \<and> \<not> chatLoadingOlder (loadOlderChat_finish r st)
   \<and> olderInFlight (run es init_system) \<le> 1
   \<and> (chatLoadingOlder (vars (run es init_system)) \<longleftrightarrow> olderInFlight (run es init_system) = 1)"
  using run_inflight_inv [OF init_inflight_inv, of es] start_guard [of st] finish_resets [of r st]
  by (simp add: inflight_inv_def)

text \<open>Two clicks give one request; once it has failed, a third click issues a new one.\<close>

theorem pagination_single_flight_witness:
  "chatLoadingOlder (fst (loadOlderChat_start session_A))
   \<and> loadOlderChat_start (fst (loadOlderChat_start session_A))
       = (fst (loadOlderChat_start session_A), None)
   \<and> olderInFlight (run two_clicks init_system) = 1
   \<and> chatLoadingOlder (vars (run two_clicks init_system))
   \<and> olderInFlight (run (two_clicks @ [OlderSettled (Inl ''timeout'')]) init_system) = 0
   \<and> olderInFlight (run (two_clicks @ [OlderSettled (Inl ''timeout''), LoadOlderClicked]) init_system) = 1"
proof -
  have l: "chatLoadingOlder (fst (loadOlderChat_start session_A))"
    by (simp add: session_A_eq loadOlderChat_start_def msg_def)
  show ?thesis
    using l two_clicks_run
      pagination_single_flight [of "fst (loadOlderChat_start session_A)" "Inl ''timeout''" two_clicks]
    by simp
qed

section \<open>One poll timer at a time\<close>

lemma timer_inv_cases:
  "timer_inv st \<longleftrightarrow>
     timers st = [] \<or> (\<exists>h d. timers st = [(h, d)] \<and> chatPollTimer st = Some h \<and> 500 \<le> d)"
  by (auto simp add: timer_inv_def split: list.splits)

lemma scheduleChatPoll_inv: "timer_inv st \<Longrightarrow> timer_inv (scheduleChatPoll d st)"
proof (cases "chatPollingActive st")
  case False
  assume "timer_inv st"
  with False show ?thesis by (simp add: scheduleChatPoll_inactive)
next
  case True
  assume "timer_inv st"
  then have "filter (\<lambda>p. Some (fst p) \<noteq> chatPollTimer st) (timers st) = []"
    by (auto simp add: timer_inv_cases)
  with scheduleChatPoll_timers [OF True, of d] show ?thesis
    by (simp add: timer_inv_cases)
qed

lemma stopChatPolling_inv: "timer_inv st \<Longrightarrow> timer_inv (stopChatPolling st)"
  by (auto simp add: timer_inv_cases stopChatPolling_def clearTimeout_def Let_def
      split: option.splits)

lemma startChatPolling_inv: "timer_inv st \<Longrightarrow> timer_inv (startChatPolling st)"
proof -
  assume inv: "timer_inv st"
  then have "timer_inv (st\<lparr>chatPollingActive := True\<rparr>)"
    by (simp add: timer_inv_cases)
  then have "timer_inv (scheduleChatPoll CHAT_POLL_INITIAL_MS (st\<lparr>chatPollingActive := True\<rparr>))"
    by (rule scheduleChatPoll_inv)
  with inv show ?thesis by (simp add: startChatPolling_def)
qed

lemma poll_tail_inv: "timer_inv st \<Longrightarrow> timer_inv (poll_tail now st)"
proof -
  assume inv: "timer_inv st"
  then have "timer_inv (boostChatPolling now st)"
    by (simp add: timer_inv_cases boostChatPolling_def)
  with inv show ?thesis
    by (simp add: poll_tail_def Let_def scheduleChatPoll_inv)
qed

lemma poll_catch_inv: "timer_inv st \<Longrightarrow> timer_inv (poll_catch now e st)"
  by (simp add: timer_inv_cases)

lemma enter_inv: "timer_inv st \<Longrightarrow> timer_inv (fst (pollSessionsHistory_enter now st))"
proof -
  assume inv: "timer_inv st"
  then have "timer_inv (st\<lparr>chatLastPollTs := Some now, chatLastPollAppended := 0,
      chatLastPollError := None\<rparr>)"
    by (simp add: timer_inv_cases)
  then have "timer_inv (scheduleChatPoll CHAT_POLL_INTERVAL_MS
      (st\<lparr>chatLastPollTs := Some now, chatLastPollAppended := 0, chatLastPollError := None\<rparr>))"
    by (rule scheduleChatPoll_inv)
  with inv show ?thesis by (simp add: pollSessionsHistory_enter_def)
qed

lemma clearTimeout_inv: "timer_inv st \<Longrightarrow> timer_inv (clearTimeout h st)"
proof -
  assume "timer_inv st"
  then consider "timers st = []"
    | k d where "timers st = [(k, d)]" and "chatPollTimer st = Some k" and "500 \<le> d"
    by (auto simp add: timer_inv_cases)
  then show ?thesis
  proof cases
    case 1
    then show ?thesis by (simp add: timer_inv_cases)
  next
    case 2
    then show ?thesis by (cases "k = h") (simp_all add: timer_inv_cases)
  qed
qed

lemma timer_fires_inv: "timer_inv st \<Longrightarrow> timer_inv (timer_fires h now st)"
proof -
  assume inv: "timer_inv st"
  then have "timer_inv (clearTimeout h st)"
    by (rule clearTimeout_inv)
  then have "timer_inv (fst (pollSessionsHistory_enter now (clearTimeout h st)))"
    by (rule enter_inv)
  with inv show ?thesis by (simp add: timer_fires_def)
qed

lemma refreshed_inv:
  "timer_inv st \<Longrightarrow> timer_inv (fst (pollSessionsHistory_refreshed now ctx r st))"
proof (cases r)
  case (Inl e)
  assume "timer_inv st"
  then have "timer_inv (poll_tail now (poll_catch now e st))"
    by (intro poll_tail_inv poll_catch_inv)
  with Inl show ?thesis by (simp add: pollSessionsHistory_refreshed_def)
next
  case (Inr u)
  assume "timer_inv st"
  with Inr show ?thesis by (simp add: pollSessionsHistory_refreshed_def Let_def timer_inv_cases)
qed

lemma merged_inv: "timer_inv st \<Longrightarrow> timer_inv (pollSessionsHistory_merged now ctx r st)"
proof (cases r)
  case (Inl e)
  assume "timer_inv st"
  then have "timer_inv (poll_tail now (poll_catch now e st))"
    by (intro poll_tail_inv poll_catch_inv)
  with Inl show ?thesis by (simp add: pollSessionsHistory_merged_def)
next
  case (Inr d)
  assume inv: "timer_inv st"
  obtain ns n where cl: "count_loop (seenBefore ctx) 0 (delta_items r) = (ns, n)"
    by (cases "count_loop (seenBefore ctx) 0 (delta_items r)")
  from inv have "timer_inv (st\<lparr>chatItems := merge_newer (chatItems st) (delta_items r),
      chatLastSeenIds := ns, chatLastPollAppended := n\<rparr>)"
    by (simp add: timer_inv_cases)
  then have "timer_inv (poll_tail now (st\<lparr>chatItems := merge_newer (chatItems st) (delta_items r),
      chatLastSeenIds := ns, chatLastPollAppended := n\<rparr>))"
    by (rule poll_tail_inv)
  with Inr cl show ?thesis by (simp add: pollSessionsHistory_merged_def Let_def)
qed

lemma loadChatLatest_inv: "timer_inv st \<Longrightarrow> timer_inv (loadChatLatest r st)"
  by (simp add: timer_inv_cases)

lemma loadChatFromConfig_inv: "timer_inv st \<Longrightarrow> timer_inv (loadChatFromConfig h ho k dbg st)"
  by (simp add: timer_inv_cases)

lemma onchange_inv:
  "timer_inv st \<Longrightarrow> timer_inv (onchange_select v st)"
  "timer_inv st \<Longrightarrow> timer_inv (onchange_resume st)"
  "timer_inv st \<Longrightarrow> timer_inv (boostChatPolling now st)"
  by (simp_all add: onchange_select_def onchange_resume_def boostChatPolling_def
      scheduleChatPoll_inv) (simp_all add: timer_inv_cases)

lemma loadOlderChat_start_inv: "timer_inv st \<Longrightarrow> timer_inv (fst (loadOlderChat_start st))"
  by (simp add: loadOlderChat_start_def timer_inv_cases split: option.splits)

lemma loadOlderChat_finish_inv: "timer_inv st \<Longrightarrow> timer_inv (loadOlderChat_finish r st)"
  by (cases r) (simp_all add: loadOlderChat_finish_def Let_def timer_inv_cases syncChatSeenIds_def)

lemma step_timer_inv: "timer_inv (vars sys) \<Longrightarrow> timer_inv (vars (step e sys))"
proof (cases e)
  case LoadOlderClicked
  assume "timer_inv (vars sys)"
  then have "timer_inv (fst (loadOlderChat_start (vars sys)))"
    by (rule loadOlderChat_start_inv)
  with LoadOlderClicked show ?thesis
    by (cases "loadOlderChat_start (vars sys)") (simp split: option.splits)
next
  case (OlderSettled r)
  assume "timer_inv (vars sys)"
  with OlderSettled show ?thesis
    by (cases "olderInFlight sys") (simp_all add: loadOlderChat_finish_inv)
qed (simp_all add: startChatPolling_inv stopChatPolling_inv timer_fires_inv refreshed_inv
    merged_inv loadChatLatest_inv loadChatFromConfig_inv onchange_inv)

lemma run_timer_inv: "timer_inv (vars sys) \<Longrightarrow> timer_inv (vars (run es sys))"
  unfolding run_def by (induction es arbitrary: sys) (simp_all add: step_timer_inv)

lemma init_timer_inv: "timer_inv (vars init_system)"
  by (simp add: timer_inv_cases init_system_def init_state_def)

lemma start_when_active: "chatPollingActive st \<Longrightarrow> startChatPolling st = st"
  by (simp add: startChatPolling_def)

lemma busy_trace_run: "timers (vars (run busy_trace init_system)) = [(3, 2000)]"
  by (simp add: busy_trace_def eval_defs)

text \<open>
  C10. \<^verbatim>\<open>startChatPolling\<close> does nothing when polling is already active. While polling
  is active \<^verbatim>\<open>scheduleChatPoll\<close> first cancels the timeout whose handle is in
  \<^verbatim>\<open>chatPollTimer\<close> and then sets one timeout, with the requested delay raised to at
  least 500 ms. In every run of the panel from its initial state at most one poll timeout
  is pending, its handle is the one in \<^verbatim>\<open>chatPollTimer\<close>, and its delay is at least 500 ms.
\<close>

theorem single_poll_timer:
  "(chatPollingActive st \<longrightarrow> startChatPolling st = st)
   \<and> (chatPollingActive st \<longrightarrow>
        timers (scheduleChatPoll d st) =
          filter (\<lambda>p. Some (fst p) \<noteq> chatPollTimer st) (timers st)
            @ [(Suc (nextTimerId st), max 500 d)])
   \<and> length (timers (vars (run es init_system))) \<le> 1
   \<and> list_all (\<lambda>p. 500 \<le> snd p) (timers (vars (run es init_system)))
   \<and> timer_inv (vars (run es init_system))"
proof -
  have inv: "timer_inv (vars (run es init_system))"
    using init_timer_inv by (rule run_timer_inv)
  then have "length (timers (vars (run es init_system))) \<le> 1"
    and "list_all (\<lambda>p. 500 \<le> snd p) (timers (vars (run es init_system)))"
    by (auto simp add: timer_inv_cases)
  with inv show ?thesis
    using start_when_active [of st] scheduleChatPoll_timers [of st d] by blast
qed

text \<open>In session \<open>A\<close> a second start changes nothing and a delay of 0 becomes 500; in the busy
  trace the last timeout set, 2000 ms after a poll that appended a message, is the only one
  pending.\<close>

theorem single_poll_timer_witness:
  "chatPollingActive session_A \<and> startChatPolling session_A = session_A
   \<and> timers session_A = [(1, 1000)]
   \<and> timers (scheduleChatPoll 0 session_A) = [(2, 500)]
   \<and> timers (vars (run busy_trace init_system)) = [(3, 2000)]
   \<and> timer_inv (vars (run busy_trace init_system))"
proof -
  have a: "chatPollingActive session_A"
    by (simp add: session_A_eq)
  show ?thesis
    using a busy_trace_run single_poll_timer [of session_A 0 busy_trace]
    by (simp add: session_A_eq)
qed

end
